theory Spec2Isabelle
  imports Complex_Main "HOL-Library.AList" "HOL-Library.Sublist"
begin

section \<open>Python values\<close>

text \<open>
  The models of \<^verbatim>\<open>openalex_types\<close> receive decoded JSON (dicts, lists, strings,
  numbers, booleans, None) or, on the read path, the cells of SQL rows. One datatype
  holds every value that occurs: \<open>PDict\<close> is a Python dict in insertion order (keys are
  strings, as JSON has them), \<open>PObj c fs\<close> is an instance of the pydantic model class
  \<open>c\<close> with its field values \<open>fs\<close> in declaration order, \<open>PUrl\<close> is a validated
  \<^verbatim>\<open>AnyUrl\<close>, \<open>PFloat\<close> a finite float, \<open>PDateTime\<close> a \<^verbatim>\<open>datetime\<close> object.
\<close>

datatype datetime = DateTime int int int int int int int "int option"
  \<comment> \<open>year, month, day, hour, minute, second, microsecond, utc offset in seconds\<close>

datatype pyval =
    PNone
  | PBool bool
  | PInt int
  | PFloat rat
  | PStr string
  | PDateTime datetime
  | PUrl string
  | PList "pyval list"
  | PDict "(string \<times> pyval) list"
  | PObj string "(string \<times> pyval) list"

text \<open>
  Exceptions are values. A \<^verbatim>\<open>ValueError\<close> raised inside a pydantic validator
  reaches the caller as pydantic's \<^verbatim>\<open>ValidationError\<close>, and so does every failed
  type coercion; any other exception leaves the constructor as it is.
\<close>

datatype error = KeyError | TypeError | IndexError | AttributeError | RuntimeError
  | ValueError | ValidationError

definition rbind :: "error + 'a \<Rightarrow> ('a \<Rightarrow> error + 'b) \<Rightarrow> error + 'b" where
  "rbind m f = (case m of Inl e \<Rightarrow> Inl e | Inr a \<Rightarrow> f a)"

text \<open>A Python loop that runs a fallible body on every element: the first exception ends it.\<close>

fun mapM :: "('a \<Rightarrow> error + 'b) \<Rightarrow> 'a list \<Rightarrow> error + 'b list" where
  "mapM f [] = Inr []"
| "mapM f (a # as) = rbind (f a) (\<lambda>b. rbind (mapM f as) (\<lambda>bs. Inr (b # bs)))"

text \<open>
  What the interpreter and the libraries compute outside this repository: pydantic's lax
  coercion of an input that is not already of the declared scalar type, \<^verbatim>\<open>int(str)\<close>,
  the \<^verbatim>\<open>datetime\<close> formatting and parsing functions, \<^verbatim>\<open>orjson\<close>, and which
  member pydantic's smart union takes when both validate. They are parameters of the
  model; \<open>None\<close> is the library's failure.
\<close>

datatype stype = TStr | TInt | TFloat | TBool | TDateTime | TUrl

record ext =
  lax :: "stype \<Rightarrow> pyval \<Rightarrow> pyval option"
  int_of_str :: "string \<Rightarrow> int option"
  isoformat :: "datetime \<Rightarrow> string"
  strftime_seconds :: "datetime \<Rightarrow> string"
  fromisoformat :: "string \<Rightarrow> datetime option"
  dumps :: "pyval \<Rightarrow> string"
  loads :: "string \<Rightarrow> pyval option"
  union_first :: "pyval \<Rightarrow> pyval \<Rightarrow> bool"

subsection \<open>Containers\<close>

text \<open>\<^verbatim>\<open>key in obj\<close> for a string key.\<close>

fun py_contains :: "string \<Rightarrow> pyval \<Rightarrow> error + bool" where
  "py_contains k (PDict d) = Inr (map_of d k \<noteq> None)"
| "py_contains k (PList xs) = Inr (PStr k \<in> set xs)"
| "py_contains k (PStr s) = Inr (sublist k s)"
| "py_contains k (PObj c fs) = Inr False"
| "py_contains k v = Inl TypeError"

text \<open>\<^verbatim>\<open>obj[key]\<close> for a string key: only a dict has string keys.\<close>

fun py_getitem :: "pyval \<Rightarrow> string \<Rightarrow> error + pyval" where
  "py_getitem (PDict d) k = (case map_of d k of None \<Rightarrow> Inl KeyError | Some v \<Rightarrow> Inr v)"
| "py_getitem v k = Inl TypeError"

text \<open>
  \<^verbatim>\<open>obj[key] = v\<close> for a string key: a key already present keeps its place, a new
  one goes to the end.
\<close>

fun py_setitem :: "pyval \<Rightarrow> string \<Rightarrow> pyval \<Rightarrow> error + pyval" where
  "py_setitem (PDict d) k v = Inr (PDict (AList.update k v d))"
| "py_setitem u k v = Inl TypeError"

text \<open>
  \<^verbatim>\<open>for x in obj\<close>: a dict yields its keys, a string its characters, a model
  instance its (name, value) pairs.
\<close>

fun py_iter :: "pyval \<Rightarrow> error + pyval list" where
  "py_iter (PList xs) = Inr xs"
| "py_iter (PDict d) = Inr (map (\<lambda>kv. PStr (fst kv)) d)"
| "py_iter (PStr s) = Inr (map (\<lambda>c. PStr [c]) s)"
| "py_iter (PObj c fs) = Inr (map (\<lambda>kv. PList [PStr (fst kv), snd kv]) fs)"
| "py_iter v = Inl TypeError"

fun py_len :: "pyval \<Rightarrow> error + nat" where
  "py_len (PList xs) = Inr (length xs)"
| "py_len (PDict d) = Inr (length d)"
| "py_len (PStr s) = Inr (length s)"
| "py_len v = Inl TypeError"

text \<open>\<^verbatim>\<open>getattr(self, key, None)\<close> on a model instance.\<close>

fun getattr :: "pyval \<Rightarrow> string \<Rightarrow> pyval" where
  "getattr (PObj c fs) k = (case map_of fs k of None \<Rightarrow> PNone | Some v \<Rightarrow> v)"
| "getattr v k = PNone"

fun setattr :: "pyval \<Rightarrow> string \<Rightarrow> pyval \<Rightarrow> pyval" where
  "setattr (PObj c fs) k v = PObj c (AList.update k v fs)"
| "setattr u k v = u"

subsection \<open>utils.check\<close>

definition check :: "string \<Rightarrow> pyval \<Rightarrow> error + bool" where
  "check arg_name obj =
     rbind (py_contains arg_name obj) (\<lambda>present.
       if \<not> present then Inr False
       else rbind (py_getitem obj arg_name) (\<lambda>v. Inr (v \<noteq> PNone)))"

section \<open>works.py: the derived abstract\<close>

text \<open>\<^verbatim>\<open>int(y)\<close>.\<close>

fun py_int :: "ext \<Rightarrow> pyval \<Rightarrow> error + int" where
  "py_int x (PInt i) = Inr i"
| "py_int x (PBool b) = Inr (if b then 1 else 0)"
| "py_int x (PFloat r) = Inr (if 0 \<le> r then \<lfloor>r\<rfloor> else \<lceil>r\<rceil>)"
| "py_int x (PStr s) = (case int_of_str x s of None \<Rightarrow> Inl ValueError | Some i \<Rightarrow> Inr i)"
| "py_int x v = Inl TypeError"

text \<open>
  \<^verbatim>\<open>abs_[position] = word\<close> on a list: a negative index counts from the end, an
  index out of range raises IndexError, an index that is no integer raises TypeError.
\<close>

definition list_setitem_int :: "string list \<Rightarrow> int \<Rightarrow> string \<Rightarrow> error + string list" where
  "list_setitem_int xs i w =
     (let n = int (length xs); j = (if i < 0 then n + i else i)
      in if 0 \<le> j \<and> j < n then Inr (xs[nat j := w]) else Inl IndexError)"

fun list_setitem :: "string list \<Rightarrow> pyval \<Rightarrow> string \<Rightarrow> error + string list" where
  "list_setitem xs (PInt i) w = list_setitem_int xs i w"
| "list_setitem xs (PBool b) w = list_setitem_int xs (if b then 1 else 0) w"
| "list_setitem xs v w = Inl TypeError"

text \<open>The inner loop \<^verbatim>\<open>for position in positions: abs_[position] = word\<close>.\<close>

fun place_word :: "string \<Rightarrow> pyval list \<Rightarrow> string list \<Rightarrow> error + string list" where
  "place_word word [] slots = Inr slots"
| "place_word word (p # ps) slots = rbind (list_setitem slots p word) (place_word word ps)"

text \<open>The outer loop \<^verbatim>\<open>for word, positions in index.items()\<close>.\<close>

fun place_words :: "(string \<times> pyval) list \<Rightarrow> string list \<Rightarrow> error + string list" where
  "place_words [] slots = Inr slots"
| "place_words ((word, positions) # rest) slots =
     rbind (py_iter positions) (\<lambda>ps. rbind (place_word word ps slots) (place_words rest))"

text \<open>\<^verbatim>\<open>" ".join(abs_)\<close>.\<close>

fun join_space :: "string list \<Rightarrow> string" where
  "join_space [] = []"
| "join_space [w] = w"
| "join_space (w # ws) = w @ '' '' @ join_space ws"

text \<open>\<^verbatim>\<open>max(list_)\<close> of a list that is not empty.\<close>

definition py_max :: "int list \<Rightarrow> int" where
  "py_max xs = fold max (tl xs) (hd xs)"

definition construct_abstract_from_index :: "ext \<Rightarrow> pyval \<Rightarrow> error + string" where
  "construct_abstract_from_index x index =
     (case index of
        PNone \<Rightarrow> Inr ''''
      | PDict d \<Rightarrow>
          rbind (mapM (\<lambda>kv. rbind (py_iter (snd kv)) (mapM (py_int x))) d) (\<lambda>yss.
            let list = concat yss in
            if length list = 0 then Inr ''''
            else
              let mx = py_max list;
                  slots = replicate (nat (mx + 1)) ''''
              in rbind (place_words d slots) (\<lambda>slots'. Inr (join_space slots')))
      | _ \<Rightarrow> Inl AttributeError)"

section \<open>pydantic: validating one value against a declared type\<close>

text \<open>
  A value that already has the declared scalar type is kept. Any other input goes
  through the library's lax coercion, whose result has the declared type.
\<close>

fun native :: "stype \<Rightarrow> pyval \<Rightarrow> bool" where
  "native TStr (PStr s) = True"
| "native TInt (PInt i) = True"
| "native TFloat (PFloat r) = True"
| "native TBool (PBool b) = True"
| "native TDateTime (PDateTime d) = True"
| "native TUrl (PUrl u) = True"
| "native t v = False"

definition pyd_scalar :: "ext \<Rightarrow> stype \<Rightarrow> pyval \<Rightarrow> error + pyval" where
  "pyd_scalar x t v =
     (if native t v then Inr v
      else case lax x t v of
             None \<Rightarrow> Inl ValidationError
           | Some v' \<Rightarrow> if native t v' then Inr v' else Inl ValidationError)"

text \<open>\<^verbatim>\<open>Optional[T]\<close>.\<close>

definition pyd_optional :: "(pyval \<Rightarrow> error + pyval) \<Rightarrow> pyval \<Rightarrow> error + pyval" where
  "pyd_optional f v = (if v = PNone then Inr PNone else f v)"

text \<open>
  The parts of a list or of a model are validated in order. A validation error is
  recorded and validation goes on; an exception of another kind ends it at once.
\<close>

fun pyd_seq :: "('a \<Rightarrow> error + 'b) \<Rightarrow> 'a list \<Rightarrow> error + 'b list" where
  "pyd_seq f [] = Inr []"
| "pyd_seq f (a # as) =
     (case f a of
        Inr b \<Rightarrow> rbind (pyd_seq f as) (\<lambda>bs. Inr (b # bs))
      | Inl e \<Rightarrow>
          if e = ValidationError
          then rbind (pyd_seq f as) (\<lambda>bs. Inl ValidationError)
          else Inl e)"

text \<open>\<^verbatim>\<open>list[T]\<close>.\<close>

definition pyd_list :: "(pyval \<Rightarrow> error + pyval) \<Rightarrow> pyval \<Rightarrow> error + pyval" where
  "pyd_list f v =
     (case v of
        PList xs \<Rightarrow> rbind (pyd_seq f xs) (\<lambda>ys. Inr (PList ys))
      | _ \<Rightarrow> Inl ValidationError)"

text \<open>\<^verbatim>\<open>dict\<close> and \<^verbatim>\<open>dict[str, T]\<close>.\<close>

definition pyd_dict :: "pyval \<Rightarrow> error + pyval" where
  "pyd_dict v = (case v of PDict d \<Rightarrow> Inr v | _ \<Rightarrow> Inl ValidationError)"

definition pyd_dict_of :: "(pyval \<Rightarrow> error + pyval) \<Rightarrow> pyval \<Rightarrow> error + pyval" where
  "pyd_dict_of f v =
     (case v of
        PDict d \<Rightarrow>
          rbind (pyd_seq (\<lambda>kv. rbind (f (snd kv)) (\<lambda>w. Inr (fst kv, w))) d) (\<lambda>d'. Inr (PDict d'))
      | _ \<Rightarrow> Inl ValidationError)"

text \<open>\<^verbatim>\<open>Literal[...]\<close> of strings.\<close>

definition pyd_literal :: "string list \<Rightarrow> pyval \<Rightarrow> error + pyval" where
  "pyd_literal choices v =
     (case v of
        PStr s \<Rightarrow> if s \<in> set choices then Inr v else Inl ValidationError
      | _ \<Rightarrow> Inl ValidationError)"

text \<open>
  A field of a model: its name, the keys under which the input may carry it
  (\<^verbatim>\<open>AliasChoices\<close>, tried in order; the name itself when no alias is declared),
  whether it is required, and the validator of its type together with the class's
  field validators for it. A field that is not required defaults to None, and its
  validators do not run on the default.
\<close>

datatype field = Field string "string list" bool "pyval \<Rightarrow> error + pyval"

definition req :: "string \<Rightarrow> (pyval \<Rightarrow> error + pyval) \<Rightarrow> field" where
  "req name f = Field name [name] True f"

definition opt :: "string \<Rightarrow> (pyval \<Rightarrow> error + pyval) \<Rightarrow> field" where
  "opt name f = Field name [name] False (pyd_optional f)"

definition opt_alias :: "string \<Rightarrow> string list \<Rightarrow> (pyval \<Rightarrow> error + pyval) \<Rightarrow> field" where
  "opt_alias name aliases f = Field name aliases False (pyd_optional f)"

fun lookup_aliases :: "(string \<times> pyval) list \<Rightarrow> string list \<Rightarrow> pyval option" where
  "lookup_aliases d [] = None"
| "lookup_aliases d (a # as) =
     (case map_of d a of Some v \<Rightarrow> Some v | None \<Rightarrow> lookup_aliases d as)"

fun validate_field :: "(string \<times> pyval) list \<Rightarrow> field \<Rightarrow> error + string \<times> pyval" where
  "validate_field d (Field name aliases required f) =
     (case lookup_aliases d aliases of
        None \<Rightarrow> if required then Inl ValidationError else Inr (name, PNone)
      | Some v \<Rightarrow> rbind (f v) (\<lambda>w. Inr (name, w)))"

text \<open>
  A model class without its model validators: a dict is validated field by field
  (keys that are no field are ignored), an instance of the class is kept.
\<close>

definition pyd_model :: "string \<Rightarrow> field list \<Rightarrow> pyval \<Rightarrow> error + pyval" where
  "pyd_model cls flds v =
     (case v of
        PDict d \<Rightarrow> rbind (pyd_seq (validate_field d) flds) (\<lambda>fs. Inr (PObj cls fs))
      | PObj c fs \<Rightarrow> if c = cls then Inr v else Inl ValidationError
      | _ \<Rightarrow> Inl ValidationError)"

section \<open>common.py\<close>

text \<open>\<^verbatim>\<open>no_tz\<close> and \<^verbatim>\<open>check_8601\<close>, the after-validators of the two timestamp types.\<close>

definition no_tz :: "ext \<Rightarrow> pyval \<Rightarrow> error + pyval" where
  "no_tz x dt =
     (case dt of
        PDateTime d \<Rightarrow>
          (case fromisoformat x (strftime_seconds x d) of
             None \<Rightarrow> Inl ValidationError
           | Some d' \<Rightarrow> Inr (PStr (isoformat x d')))
      | _ \<Rightarrow> Inl AttributeError)"

definition check_8601 :: "ext \<Rightarrow> pyval \<Rightarrow> error + pyval" where
  "check_8601 x dt =
     (case dt of PDateTime d \<Rightarrow> Inr (PStr (isoformat x d)) | _ \<Rightarrow> Inl AttributeError)"

definition DateTimeNoTZ :: "ext \<Rightarrow> pyval \<Rightarrow> error + pyval" where
  "DateTimeNoTZ x v = rbind (pyd_scalar x TDateTime v) (no_tz x)"

definition Date8601 :: "ext \<Rightarrow> pyval \<Rightarrow> error + pyval" where
  "Date8601 x v = rbind (pyd_scalar x TDateTime v) (check_8601 x)"

definition CountryCode :: "ext \<Rightarrow> pyval \<Rightarrow> error + pyval" where
  "CountryCode x v =
     rbind (pyd_scalar x TStr v) (\<lambda>w.
       case w of
         PStr s \<Rightarrow> if length s = 2 then Inr w else Inl ValidationError
       | _ \<Rightarrow> Inl ValidationError)"

abbreviation t_str :: "ext \<Rightarrow> pyval \<Rightarrow> error + pyval" where
  "t_str x \<equiv> pyd_scalar x TStr"

abbreviation t_int :: "ext \<Rightarrow> pyval \<Rightarrow> error + pyval" where
  "t_int x \<equiv> pyd_scalar x TInt"

abbreviation t_float :: "ext \<Rightarrow> pyval \<Rightarrow> error + pyval" where
  "t_float x \<equiv> pyd_scalar x TFloat"

abbreviation t_bool :: "ext \<Rightarrow> pyval \<Rightarrow> error + pyval" where
  "t_bool x \<equiv> pyd_scalar x TBool"

definition BaseCountByYear_fields :: "ext \<Rightarrow> field list" where
  "BaseCountByYear_fields x =
     [req ''year'' (t_int x), opt ''works_count'' (t_int x),
      opt ''cited_by_count'' (t_int x), opt ''oa_works_count'' (t_int x)]"

definition SummaryStats :: "ext \<Rightarrow> pyval \<Rightarrow> error + pyval" where
  "SummaryStats x =
     pyd_model ''SummaryStats''
       [opt_alias ''twoyr_mean_citedness'' [''2yr_mean_citedness''] (t_float x),
        opt ''h_index'' (t_int x), opt ''i10_index'' (t_int x)]"

definition Role :: "ext \<Rightarrow> pyval \<Rightarrow> error + pyval" where
  "Role x =
     pyd_model ''Role''
       [req ''role'' (pyd_literal [''institution'', ''funder'', ''publisher'']),
        req ''id'' (t_str x), req ''works_count'' (t_int x)]"

text \<open>
  The two shapes of identifier replication in the before-validators:
  \<^verbatim>\<open>if check(sub, self): self[sub][key] = self["id"]\<close> and
  \<^verbatim>\<open>if check(sub, self): for item in self[sub]: item[key] = self["id"]\<close>.
  The right-hand side is evaluated before the target. The loop mutates the elements of
  a list in place; over anything else that can be iterated its body fails on the first
  element.
\<close>

definition replicate_in_dict :: "string \<Rightarrow> string \<Rightarrow> pyval \<Rightarrow> error + pyval" where
  "replicate_in_dict sub key self =
     rbind (check sub self) (\<lambda>c.
       if \<not> c then Inr self
       else rbind (py_getitem self ''id'') (\<lambda>i.
            rbind (py_getitem self sub) (\<lambda>s.
            rbind (py_setitem s key i) (\<lambda>s'. py_setitem self sub s'))))"

definition replicate_in_list :: "string \<Rightarrow> string \<Rightarrow> pyval \<Rightarrow> error + pyval" where
  "replicate_in_list sub key self =
     rbind (check sub self) (\<lambda>c.
       if \<not> c then Inr self
       else rbind (py_getitem self sub) (\<lambda>coll.
            rbind (py_iter coll) (\<lambda>items.
            rbind (mapM (\<lambda>item. rbind (py_getitem self ''id'') (py_setitem item key)) items)
              (\<lambda>items'. case coll of
                           PList xs \<Rightarrow> py_setitem self sub (PList items')
                         | _ \<Rightarrow> Inr self))))"

section \<open>sources.py\<close>

definition SourceCountByYear :: "ext \<Rightarrow> pyval \<Rightarrow> error + pyval" where
  "SourceCountByYear x =
     pyd_model ''SourceCountByYear'' (BaseCountByYear_fields x @ [req ''source_id'' (t_str x)])"

definition SourceIDs :: "ext \<Rightarrow> pyval \<Rightarrow> error + pyval" where
  "SourceIDs x =
     pyd_model ''SourceIDs''
       [req ''source_id'' (t_str x), opt ''openalex'' (t_str x), opt ''issn_l'' (t_str x),
        opt ''issn'' (pyd_list (t_str x)), opt ''mag'' (t_int x), opt ''wikidata'' (t_str x),
        opt ''fatcat'' (t_str x)]"

definition SourceAPC :: "ext \<Rightarrow> pyval \<Rightarrow> error + pyval" where
  "SourceAPC x = pyd_model ''SourceAPC'' [opt ''price'' (t_int x), opt ''currency'' (t_str x)]"

definition DehydratedSource :: "ext \<Rightarrow> pyval \<Rightarrow> error + pyval" where
  "DehydratedSource x =
     pyd_model ''DehydratedSource''
       [req ''id'' (t_str x), opt ''issn_l'' (t_str x), opt ''display_name'' (t_str x),
        opt ''is_oa'' (t_bool x), opt ''is_in_doaj'' (t_bool x), opt ''issn'' (pyd_list (t_str x)),
        opt ''host_organization'' (t_str x),
        opt ''host_organization_lineage'' (pyd_list (t_str x)),
        opt ''host_organization_name'' (t_str x), opt ''is_core'' (t_bool x),
        opt ''type'' (t_str x)]"

definition Source_fields :: "ext \<Rightarrow> field list" where
  "Source_fields x =
     [req ''id'' (t_str x), opt ''issn_l'' (t_str x), opt ''display_name'' (t_str x),
      opt ''publisher'' (t_str x), opt ''works_count'' (t_int x),
      opt ''cited_by_count'' (t_int x), opt ''is_oa'' (t_bool x), opt ''is_in_doaj'' (t_bool x),
      opt ''homepage_url'' (t_str x), opt ''works_api_url'' (t_str x),
      opt ''updated_date'' (DateTimeNoTZ x), opt ''issn'' (pyd_list (t_str x)),
      opt ''abbreviated_title'' (t_str x), opt ''alternate_titles'' (pyd_list (t_str x)),
      opt ''apc_prices'' (pyd_list (SourceAPC x)), opt ''apc_usd'' (t_int x),
      opt ''country_code'' (CountryCode x),
      opt ''counts_by_year'' (pyd_list (SourceCountByYear x)),
      opt ''host_organization'' (t_str x),
      opt ''host_organization_lineage'' (pyd_list (t_str x)),
      opt ''host_organization_name'' (t_str x), opt ''ids'' (SourceIDs x),
      opt ''is_core'' (t_bool x), opt ''summary_stats'' (SummaryStats x),
      opt ''type'' (t_str x)]"

definition Source_replicate_id :: "pyval \<Rightarrow> error + pyval" where
  "Source_replicate_id self =
     rbind (replicate_in_list ''counts_by_year'' ''source_id'' self)
       (replicate_in_dict ''ids'' ''source_id'')"

definition Source :: "ext \<Rightarrow> pyval \<Rightarrow> error + pyval" where
  "Source x v = rbind (Source_replicate_id v) (pyd_model ''Source'' (Source_fields x))"

text \<open>
  \<^verbatim>\<open>Source | DehydratedSource\<close>. Both members are tried, the first one first; an
  exception of the first ends validation. The before-validator of \<open>Source\<close> writes only
  under keys that \<open>DehydratedSource\<close> does not read.
\<close>

definition Source_or_DehydratedSource :: "ext \<Rightarrow> pyval \<Rightarrow> error + pyval" where
  "Source_or_DehydratedSource x v =
     (case Source x v of
        Inr a \<Rightarrow>
          (case DehydratedSource x v of
             Inr b \<Rightarrow> Inr (if union_first x a b then a else b)
           | Inl e \<Rightarrow> if e = ValidationError then Inr a else Inl e)
      | Inl e \<Rightarrow> if e = ValidationError then DehydratedSource x v else Inl e)"

section \<open>institutions.py\<close>

definition InstitutionAssociatedInstitution :: "ext \<Rightarrow> pyval \<Rightarrow> error + pyval" where
  "InstitutionAssociatedInstitution x =
     pyd_model ''InstitutionAssociatedInstitution''
       [opt ''institution_id'' (t_str x),
        opt_alias ''associated_institution_id'' [''id'', ''associated_institution_id''] (t_str x),
        opt ''relationship'' (t_str x), opt ''country_code'' (CountryCode x),
        opt ''display_name'' (t_str x), opt ''ror'' (t_str x), opt ''type'' (t_str x),
        opt ''lineage'' (pyd_list (t_str x))]"

definition InstitutionCountByYear :: "ext \<Rightarrow> pyval \<Rightarrow> error + pyval" where
  "InstitutionCountByYear x =
     pyd_model ''InstitutionCountByYear''
       (BaseCountByYear_fields x @ [req ''institution_id'' (t_str x)])"

definition InstitutionGeo :: "ext \<Rightarrow> pyval \<Rightarrow> error + pyval" where
  "InstitutionGeo x =
     pyd_model ''InstitutionGeo''
       [req ''institution_id'' (t_str x), opt ''city'' (t_str x),
        opt ''geonames_city_id'' (t_str x), opt ''region'' (t_str x),
        opt ''country_code'' (CountryCode x), opt ''country'' (t_str x),
        opt ''latitude'' (t_float x), opt ''longitude'' (t_float x)]"

definition InstitutionIDs :: "ext \<Rightarrow> pyval \<Rightarrow> error + pyval" where
  "InstitutionIDs x =
     pyd_model ''InstitutionIDs''
       [req ''institution_id'' (t_str x), opt ''openalex'' (t_str x), opt ''ror'' (t_str x),
        opt ''grid'' (t_str x), opt ''wikidata'' (t_str x), opt ''wikipedia'' (t_str x),
        opt ''mag'' (t_int x)]"

definition InstitutionInternationl :: "ext \<Rightarrow> pyval \<Rightarrow> error + pyval" where
  "InstitutionInternationl x =
     pyd_model ''InstitutionInternationl'' [req ''display_name'' (pyd_dict_of (t_str x))]"

definition DehydratedInstitution :: "ext \<Rightarrow> pyval \<Rightarrow> error + pyval" where
  "DehydratedInstitution x =
     pyd_model ''DehydratedInstitution''
       [req ''id'' (t_str x), opt ''country_code'' (CountryCode x),
        opt ''display_name'' (t_str x), opt ''ror'' (t_str x), opt ''type'' (t_str x),
        opt ''lineage'' (pyd_list (t_str x))]"

text \<open>The field validator \<^verbatim>\<open>_check_not_empty\<close> of Institution and of Author.\<close>

definition check_not_empty :: "pyval \<Rightarrow> error + pyval" where
  "check_not_empty val =
     (if val = PNone then Inr PNone
      else rbind (py_len val) (\<lambda>n. if n = 0 then Inr PNone else Inr val))"

definition Institution_fields :: "ext \<Rightarrow> field list" where
  "Institution_fields x =
     [req ''id'' (t_str x), opt ''ror'' (t_str x), opt ''lineage'' (pyd_list (t_str x)),
      opt ''display_name'' (t_str x), opt ''country_code'' (CountryCode x),
      opt ''type'' (t_str x), opt ''homepage_url'' (t_str x), opt ''image_url'' (t_str x),
      opt ''image_thumbnail_url'' (t_str x),
      Field ''display_name_acronyms'' [''display_name_acronyms''] False
        (\<lambda>v. rbind (pyd_optional (pyd_list (t_str x)) v) check_not_empty),
      Field ''display_name_alternatives'' [''display_name_alternatives''] False
        (\<lambda>v. rbind (pyd_optional (pyd_list (t_str x)) v) check_not_empty),
      opt ''works_count'' (t_int x), opt ''cited_by_count'' (t_int x),
      opt ''works_api_url'' (t_str x), opt ''updated_date'' (DateTimeNoTZ x),
      opt ''geo'' (InstitutionGeo x),
      Field ''counts_by_year'' [''counts_by_year''] False
        (\<lambda>v. rbind (pyd_optional (pyd_list (InstitutionCountByYear x)) v) check_not_empty),
      opt ''ids'' (InstitutionIDs x),
      Field ''associated_institutions'' [''associated_institutions''] False
        (\<lambda>v. rbind (pyd_optional (pyd_list (InstitutionAssociatedInstitution x)) v)
                check_not_empty),
      opt ''created_date'' (Date8601 x), opt ''is_supersystem'' (t_bool x),
      opt ''international'' (InstitutionInternationl x),
      opt ''repositories'' (pyd_list (Source_or_DehydratedSource x)),
      opt ''summary_stats'' (SummaryStats x), opt ''roles'' (pyd_list (Role x))]"

definition Institution_replicate_id :: "pyval \<Rightarrow> error + pyval" where
  "Institution_replicate_id self =
     rbind (replicate_in_dict ''geo'' ''institution_id'' self) (\<lambda>s1.
     rbind (replicate_in_list ''counts_by_year'' ''institution_id'' s1) (\<lambda>s2.
     rbind (replicate_in_dict ''ids'' ''institution_id'' s2)
       (replicate_in_list ''associated_institutions'' ''institution_id'')))"

text \<open>The after-validator: every repository is hosted by this institution.\<close>

definition Institution_check_repositories :: "pyval \<Rightarrow> error + pyval" where
  "Institution_check_repositories self =
     (if getattr self ''repositories'' \<noteq> PNone
      then rbind (py_iter (getattr self ''repositories'')) (\<lambda>repos.
             if \<exists>repo \<in> set repos. getattr repo ''host_organization'' \<noteq> getattr self ''id''
             then Inl ValidationError else Inr self)
      else Inr self)"

definition Institution :: "ext \<Rightarrow> pyval \<Rightarrow> error + pyval" where
  "Institution x v =
     rbind (Institution_replicate_id v) (\<lambda>v1.
     rbind (pyd_model ''Institution'' (Institution_fields x) v1)
       Institution_check_repositories)"

section \<open>authors.py\<close>

definition AuthorCountByYear :: "ext \<Rightarrow> pyval \<Rightarrow> error + pyval" where
  "AuthorCountByYear x =
     pyd_model ''AuthorCountByYear'' (BaseCountByYear_fields x @ [req ''author_id'' (t_str x)])"

definition AuthorIDs :: "ext \<Rightarrow> pyval \<Rightarrow> error + pyval" where
  "AuthorIDs x =
     pyd_model ''AuthorIDs''
       [req ''author_id'' (t_str x), opt ''openalex'' (t_str x), opt ''orcid'' (t_str x),
        opt ''scopus'' (t_str x), opt ''twitter'' (t_str x), opt ''wikipedia'' (t_str x),
        opt ''mag'' (t_int x)]"

definition AuthorAffiliation :: "ext \<Rightarrow> pyval \<Rightarrow> error + pyval" where
  "AuthorAffiliation x =
     pyd_model ''AuthorAffiliation''
       [opt ''institution'' (DehydratedInstitution x), opt ''years'' (pyd_list (t_int x))]"

definition DehydratedAuthor :: "ext \<Rightarrow> pyval \<Rightarrow> error + pyval" where
  "DehydratedAuthor x =
     pyd_model ''DehydratedAuthor''
       [req ''id'' (t_str x), opt ''display_name'' (t_str x), opt ''orcid'' (t_str x)]"

text \<open>The field validator \<^verbatim>\<open>_remove_quotation_marks\<close>: \<^verbatim>\<open>x.replace('"', "")\<close>.\<close>

definition remove_quotation_marks :: "pyval \<Rightarrow> error + pyval" where
  "remove_quotation_marks v =
     (if v = PNone then Inr PNone
      else rbind (py_iter v) (\<lambda>xs.
             rbind (mapM (\<lambda>e. case e of
                                PStr s \<Rightarrow> Inr (PStr (filter (\<lambda>c. c \<noteq> CHR 0x22) s))
                              | _ \<Rightarrow> Inl AttributeError) xs) (\<lambda>ys. Inr (PList ys))))"

definition Author_fields :: "ext \<Rightarrow> field list" where
  "Author_fields x =
     [req ''id'' (t_str x), opt ''orcid'' (t_str x), opt ''display_name'' (t_str x),
      Field ''display_name_alternatives'' [''display_name_alternatives''] False
        (\<lambda>v. rbind (pyd_optional (pyd_list (t_str x)) v) (\<lambda>v1.
              rbind (remove_quotation_marks v1) check_not_empty)),
      opt ''works_count'' (t_int x), opt ''cited_by_count'' (t_int x),
      opt ''last_known_institution'' (t_str x), opt ''works_api_url'' (t_str x),
      opt ''updated_date'' (DateTimeNoTZ x), opt ''ids'' (AuthorIDs x),
      Field ''counts_by_year'' [''counts_by_year''] False
        (\<lambda>v. rbind (pyd_optional (pyd_list (AuthorCountByYear x)) v) check_not_empty),
      opt ''affiliations'' (pyd_list (AuthorAffiliation x)),
      opt ''created_date'' (Date8601 x),
      opt ''last_known_institutions'' (pyd_list (DehydratedInstitution x)),
      opt ''summary_stats'' (SummaryStats x)]"

definition Author_replicate_id :: "pyval \<Rightarrow> error + pyval" where
  "Author_replicate_id self =
     rbind (replicate_in_list ''counts_by_year'' ''author_id'' self)
       (replicate_in_dict ''ids'' ''author_id'')"

definition Author :: "ext \<Rightarrow> pyval \<Rightarrow> error + pyval" where
  "Author x v = rbind (Author_replicate_id v) (pyd_model ''Author'' (Author_fields x))"

section \<open>topics.py\<close>

definition TopicDomainOrField :: "ext \<Rightarrow> pyval \<Rightarrow> error + pyval" where
  "TopicDomainOrField x =
     pyd_model ''TopicDomainOrField'' [req ''id'' (t_str x), req ''display_name'' (t_str x)]"

definition TopicIDs :: "ext \<Rightarrow> pyval \<Rightarrow> error + pyval" where
  "TopicIDs x = pyd_model ''TopicIDs'' [opt ''openalex'' (t_str x), opt ''wikipedia'' (t_str x)]"

definition Topic_fields :: "ext \<Rightarrow> field list" where
  "Topic_fields x =
     [req ''id'' (t_str x), opt ''display_name'' (t_str x), opt ''subfield_id'' (t_str x),
      opt ''subfield_display_name'' (t_str x), opt ''field_id'' (t_str x),
      opt ''field_display_name'' (t_str x), opt ''domain_id'' (t_str x),
      opt ''domain_display_name'' (t_str x), opt ''description'' (t_str x),
      opt ''works_api_url'' (pyd_scalar x TUrl), opt ''wikipedia_id'' (t_str x),
      opt ''works_count'' (t_int x), opt ''cited_by_count'' (t_int x),
      opt ''updated_date'' (DateTimeNoTZ x), opt ''domain'' (TopicDomainOrField x),
      opt ''field'' (TopicDomainOrField x), opt ''ids'' (TopicIDs x),
      opt ''keywords'' (pyd_list (t_str x)), opt ''subfield'' (TopicDomainOrField x)]"

definition Topic_replicate_id :: "pyval \<Rightarrow> error + pyval" where
  "Topic_replicate_id self = replicate_in_dict ''ids'' ''openalex'' self"

text \<open>
  \<^verbatim>\<open>_str_to_list\<close> reads \<^verbatim>\<open>self["keywords"]\<close> with no test that the key is
  there. A string that \<^verbatim>\<open>orjson.loads\<close> rejects raises a ValueError.
\<close>

definition Topic_str_to_list :: "ext \<Rightarrow> pyval \<Rightarrow> error + pyval" where
  "Topic_str_to_list x self =
     rbind (py_getitem self ''keywords'') (\<lambda>kw.
       case kw of
         PStr s \<Rightarrow>
           (case loads x s of
              None \<Rightarrow> Inl ValidationError
            | Some v \<Rightarrow> py_setitem self ''keywords'' v)
       | _ \<Rightarrow> Inr self)"

definition Topic_check_ids :: "pyval \<Rightarrow> error + pyval" where
  "Topic_check_ids self =
     (if getattr self ''ids'' \<noteq> PNone
         \<and> getattr (getattr self ''ids'') ''openalex'' \<noteq> getattr self ''id''
      then Inl ValidationError else Inr self)"

definition flatten_one :: "string \<Rightarrow> pyval \<Rightarrow> pyval" where
  "flatten_one name self =
     (if getattr self name \<noteq> PNone
      then setattr (setattr self (name @ ''_id'') (getattr (getattr self name) ''id''))
             (name @ ''_display_name'') (getattr (getattr self name) ''display_name'')
      else self)"

definition Topic_flatten :: "pyval \<Rightarrow> error + pyval" where
  "Topic_flatten self =
     Inr (flatten_one ''subfield'' (flatten_one ''field'' (flatten_one ''domain'' self)))"

text \<open>
  Of several before-validators of a class pydantic runs the one defined last first;
  after-validators run in the order of their definition.
\<close>

definition Topic :: "ext \<Rightarrow> pyval \<Rightarrow> error + pyval" where
  "Topic x v =
     rbind (Topic_str_to_list x v) (\<lambda>v1.
     rbind (Topic_replicate_id v1) (\<lambda>v2.
     rbind (pyd_model ''Topic'' (Topic_fields x) v2) (\<lambda>self.
     rbind (Topic_check_ids self) Topic_flatten)))"

definition Topic_sql_order :: "string list" where
  "Topic_sql_order =
     [''id'', ''display_name'', ''subfield_id'', ''subfield_display_name'', ''field_id'',
      ''field_display_name'', ''domain_id'', ''domain_display_name'', ''description'',
      ''keywords'', ''works_api_url'', ''wikipedia_id'', ''works_count'', ''cited_by_count'',
      ''updated_date'']"

section \<open>works.py: the subentities\<close>

definition construct_dict_from_id :: "pyval \<Rightarrow> pyval \<Rightarrow> pyval" where
  "construct_dict_from_id work_id other_id = PDict [(''id'', other_id), (''work_id'', work_id)]"

definition BaseWorkLocation_fields :: "ext \<Rightarrow> field list" where
  "BaseWorkLocation_fields x =
     [opt ''work_id'' (t_str x), opt ''source_id'' (t_str x),
      opt ''landing_page_url'' (t_str x), opt ''pdf_url'' (t_str x), opt ''is_oa'' (t_bool x),
      opt ''version'' (pyd_literal [''publishedVersion'', ''acceptedVersion'',
                                    ''submittedVersion'']),
      opt ''license'' (t_str x), opt ''source'' (Source x), opt ''is_accepted'' (t_bool x),
      opt ''is_published'' (t_bool x)]"

definition BaseWorkLocation_sql_order :: "string list" where
  "BaseWorkLocation_sql_order =
     [''work_id'', ''source_id'', ''landing_page_url'', ''pdf_url'', ''is_oa'', ''version'',
      ''license'']"

definition populate_source_id :: "pyval \<Rightarrow> error + pyval" where
  "populate_source_id self =
     (if getattr self ''source'' \<noteq> PNone
      then Inr (setattr self ''source_id'' (getattr (getattr self ''source'') ''id''))
      else Inr self)"

definition BaseWorkLocation :: "string \<Rightarrow> ext \<Rightarrow> pyval \<Rightarrow> error + pyval" where
  "BaseWorkLocation cls x v =
     rbind (pyd_model cls (BaseWorkLocation_fields x) v) populate_source_id"

definition WorkPrimaryLocation :: "ext \<Rightarrow> pyval \<Rightarrow> error + pyval" where
  "WorkPrimaryLocation = BaseWorkLocation ''WorkPrimaryLocation''"

definition WorkLocation :: "ext \<Rightarrow> pyval \<Rightarrow> error + pyval" where
  "WorkLocation = BaseWorkLocation ''WorkLocation''"

definition WorkBestOALocation :: "ext \<Rightarrow> pyval \<Rightarrow> error + pyval" where
  "WorkBestOALocation = BaseWorkLocation ''WorkBestOALocation''"

definition WorkAuthorship_fields :: "ext \<Rightarrow> field list" where
  "WorkAuthorship_fields x =
     [opt ''work_id'' (t_str x),
      opt ''author_position'' (pyd_literal [''first'', ''last'', ''middle'']),
      opt ''author_id'' (t_str x), opt ''institution_id'' (t_str x),
      opt ''raw_affiliation_string'' (t_str x), opt ''author'' (DehydratedAuthor x),
      opt ''countries'' (pyd_list (t_str x)),
      opt ''institutions'' (pyd_list (DehydratedInstitution x)),
      opt ''is_corresponding'' (t_bool x), opt ''raw_author_name'' (t_str x)]"

definition WorkAuthorship_sql_order :: "string list" where
  "WorkAuthorship_sql_order =
     [''work_id'', ''author_position'', ''author_id'', ''institution_id'',
      ''raw_affiliation_string'']"

definition WorkAuthorship_replicate_id :: "pyval \<Rightarrow> error + pyval" where
  "WorkAuthorship_replicate_id self =
     rbind (check ''author'' self) (\<lambda>c.
       if \<not> c then Inr self
       else rbind (py_getitem self ''author'') (\<lambda>a.
            rbind (py_getitem a ''id'') (py_setitem self ''author_id'')))"

definition WorkAuthorship_check_author_id :: "pyval \<Rightarrow> error + pyval" where
  "WorkAuthorship_check_author_id self =
     (if getattr self ''author'' \<noteq> PNone
         \<and> getattr (getattr self ''author'') ''id'' \<noteq> getattr self ''author_id''
      then Inl ValidationError else Inr self)"

definition WorkAuthorship :: "ext \<Rightarrow> pyval \<Rightarrow> error + pyval" where
  "WorkAuthorship x v =
     rbind (WorkAuthorship_replicate_id v) (\<lambda>v1.
     rbind (pyd_model ''WorkAuthorship'' (WorkAuthorship_fields x) v1)
       WorkAuthorship_check_author_id)"

definition WorkBiblio :: "ext \<Rightarrow> pyval \<Rightarrow> error + pyval" where
  "WorkBiblio x =
     pyd_model ''WorkBiblio''
       [opt ''work_id'' (t_str x), opt ''volume'' (t_str x), opt ''issue'' (t_str x),
        opt ''first_page'' (t_str x), opt ''last_page'' (t_str x)]"

definition WorkBiblio_sql_order :: "string list" where
  "WorkBiblio_sql_order = [''work_id'', ''volume'', ''issue'', ''first_page'', ''last_page'']"

definition WorkTopic :: "ext \<Rightarrow> pyval \<Rightarrow> error + pyval" where
  "WorkTopic x =
     pyd_model ''WorkTopic''
       [opt_alias ''work_id'' [''id'', ''work_id''] (t_str x), opt ''topic_id'' (t_str x),
        opt ''score'' (t_float x), opt ''subfield'' pyd_dict]"

definition WorkTopic_sql_order :: "string list" where
  "WorkTopic_sql_order = [''work_id'', ''topic_id'', ''score'']"

definition WorkConcept :: "ext \<Rightarrow> pyval \<Rightarrow> error + pyval" where
  "WorkConcept x =
     pyd_model ''WorkConcept''
       [opt ''work_id'' (t_str x), opt ''concept_id'' (t_str x), opt ''score'' (t_float x)]"

definition WorkConcept_sql_order :: "string list" where
  "WorkConcept_sql_order = [''work_id'', ''concept_id'', ''score'']"

definition WorkIDs :: "ext \<Rightarrow> pyval \<Rightarrow> error + pyval" where
  "WorkIDs x =
     pyd_model ''WorkIDs''
       [req ''work_id'' (t_str x), opt ''openalex'' (t_str x), opt ''doi'' (t_str x),
        opt ''mag'' (t_int x), opt ''pmid'' (t_str x), opt ''pmcid'' (t_str x)]"

definition WorkIDs_sql_order :: "string list" where
  "WorkIDs_sql_order = [''work_id'', ''openalex'', ''doi'', ''mag'', ''pmid'', ''pmcid'']"

definition WorkMesh :: "ext \<Rightarrow> pyval \<Rightarrow> error + pyval" where
  "WorkMesh x =
     pyd_model ''WorkMesh''
       [opt ''work_id'' (t_str x), opt ''descriptor_ui'' (t_str x),
        opt ''descriptor_name'' (t_str x), opt ''qualifier_ui'' (t_str x),
        opt ''qualifier_name'' (t_str x), opt ''is_major_topic'' (t_bool x)]"

definition WorkMesh_sql_order :: "string list" where
  "WorkMesh_sql_order =
     [''work_id'', ''descriptor_ui'', ''descriptor_name'', ''qualifier_ui'',
      ''qualifier_name'', ''is_major_topic'']"

definition NomicEmbedText768 :: "ext \<Rightarrow> pyval \<Rightarrow> error + pyval" where
  "NomicEmbedText768 x =
     pyd_model ''NomicEmbedText768''
       [opt ''work_id'' (t_str x), opt ''embedding'' (pyd_list (t_float x))]"

definition WorkOpenAccess :: "ext \<Rightarrow> pyval \<Rightarrow> error + pyval" where
  "WorkOpenAccess x =
     pyd_model ''WorkOpenAccess''
       [opt ''work_id'' (t_str x), opt ''is_oa'' (t_bool x), opt ''oa_status'' (t_str x),
        opt ''oa_url'' (t_str x), opt ''any_repository_has_fulltext'' (t_bool x)]"

definition WorkOpenAccess_sql_order :: "string list" where
  "WorkOpenAccess_sql_order =
     [''work_id'', ''is_oa'', ''oa_status'', ''oa_url'', ''any_repository_has_fulltext'']"

definition WorkReferencedWork :: "ext \<Rightarrow> pyval \<Rightarrow> error + pyval" where
  "WorkReferencedWork x =
     pyd_model ''WorkReferencedWork''
       [opt ''work_id'' (t_str x),
        opt_alias ''referenced_work_id'' [''id'', ''referenced_work_id''] (t_str x)]"

definition WorkReferencedWork_sql_order :: "string list" where
  "WorkReferencedWork_sql_order = [''work_id'', ''referenced_work_id'']"

definition WorkRelatedWork :: "ext \<Rightarrow> pyval \<Rightarrow> error + pyval" where
  "WorkRelatedWork x =
     pyd_model ''WorkRelatedWork''
       [opt ''work_id'' (t_str x),
        opt_alias ''related_work_id'' [''id'', ''related_work_id''] (t_str x)]"

definition WorkRelatedWork_sql_order :: "string list" where
  "WorkRelatedWork_sql_order = [''work_id'', ''related_work_id'']"

definition WorkAPC :: "ext \<Rightarrow> pyval \<Rightarrow> error + pyval" where
  "WorkAPC x =
     pyd_model ''WorkAPC''
       [opt ''value'' (t_int x), opt ''currency'' (t_str x), opt ''provenance'' (t_str x),
        opt ''value_usd'' (t_int x)]"

definition WorkCountByYear :: "ext \<Rightarrow> pyval \<Rightarrow> error + pyval" where
  "WorkCountByYear x =
     pyd_model ''WorkCountByYear'' [req ''year'' (t_int x), req ''cited_by_count'' (t_int x)]"

definition WorkGrant :: "ext \<Rightarrow> pyval \<Rightarrow> error + pyval" where
  "WorkGrant x =
     pyd_model ''WorkGrant''
       [opt ''funder'' (t_str x), opt ''funder_display_name'' (t_str x),
        opt ''award_id'' (t_str x)]"

definition WorkKeyword :: "ext \<Rightarrow> pyval \<Rightarrow> error + pyval" where
  "WorkKeyword x =
     pyd_model ''WorkKeyword''
       [opt ''id'' (t_str x), opt ''display_name'' (t_str x), opt ''score'' (t_float x)]"

definition WorkSDG :: "ext \<Rightarrow> pyval \<Rightarrow> error + pyval" where
  "WorkSDG x =
     pyd_model ''WorkSDG''
       [opt ''id'' (t_str x), opt ''display_name'' (t_str x), opt ''score'' (t_float x)]"

section \<open>works.py: Work\<close>

text \<open>Truth value of a Python object, as \<^verbatim>\<open>not value\<close> tests it.\<close>

fun py_truthy :: "pyval \<Rightarrow> bool" where
  "py_truthy PNone = False"
| "py_truthy (PBool b) = b"
| "py_truthy (PInt i) = (i \<noteq> 0)"
| "py_truthy (PFloat r) = (r \<noteq> 0)"
| "py_truthy (PStr s) = (s \<noteq> [])"
| "py_truthy (PList xs) = (xs \<noteq> [])"
| "py_truthy (PDict d) = (d \<noteq> [])"
| "py_truthy v = True"

definition Work_validate_best_oa_location :: "pyval \<Rightarrow> error + pyval" where
  "Work_validate_best_oa_location val =
     (if val = PNone then Inr val
      else if \<not> py_truthy (getattr val ''is_oa'') then Inl ValidationError
      else Inr val)"

definition Work_validate_abstract_inverted_index :: "pyval \<Rightarrow> error + pyval" where
  "Work_validate_abstract_inverted_index val =
     (if val = PNone then Inr val
      else rbind (py_len val) (\<lambda>n. if n = 0 then Inr PNone else Inr val))"

definition Work_fields :: "ext \<Rightarrow> field list" where
  "Work_fields x =
     [req ''id'' (t_str x), opt ''doi'' (t_str x), opt ''title'' (t_str x),
      opt ''display_name'' (t_str x), opt ''publication_year'' (t_int x),
      opt ''publication_date'' (Date8601 x), opt ''type'' (t_str x),
      opt ''cited_by_count'' (t_int x), opt ''is_retracted'' (t_bool x),
      opt ''is_paratext'' (t_bool x), opt ''cited_by_api_url'' (t_str x),
      Field ''abstract_inverted_index'' [''abstract_inverted_index''] False
        (\<lambda>v. rbind (pyd_optional pyd_dict v) Work_validate_abstract_inverted_index),
      opt ''language'' (t_str x), opt ''ids'' (WorkIDs x),
      opt ''locations'' (pyd_list (WorkLocation x)),
      opt ''authorships'' (pyd_list (WorkAuthorship x)), opt ''biblio'' (WorkBiblio x),
      opt ''topics'' (pyd_list (WorkTopic x)), opt ''concepts'' (pyd_list (WorkConcept x)),
      opt ''mesh'' (pyd_list (WorkMesh x)), opt ''open_access'' (WorkOpenAccess x),
      opt ''referenced_works'' (pyd_list (WorkReferencedWork x)),
      opt ''related_works'' (pyd_list (WorkRelatedWork x)), opt ''apc_list'' (WorkAPC x),
      opt ''apc_paid'' (WorkAPC x),
      Field ''best_oa_location'' [''best_oa_location''] False
        (\<lambda>v. rbind (pyd_optional (WorkBestOALocation x) v) Work_validate_best_oa_location),
      opt ''corresponding_author_ids'' (pyd_list (t_str x)),
      opt ''corresponding_institution_ids'' (pyd_list (t_str x)),
      opt ''countries_distinct_count'' (t_int x), opt ''created_date'' (Date8601 x),
      opt ''counts_by_year'' (pyd_list (WorkCountByYear x)),
      opt ''fulltext_origin'' (pyd_literal [''pdf'', ''ngrams'']), opt ''fwci'' (t_float x),
      opt ''grants'' (pyd_list (WorkGrant x)), opt ''has_fulltext'' (t_bool x),
      opt ''indexed_in'' (pyd_list (t_str x)), opt ''institutions_distinct_count'' (t_int x),
      opt ''keywords'' (pyd_list (WorkKeyword x)), opt ''license'' (t_str x),
      opt ''locations_count'' (t_int x), opt ''primary_location'' (WorkPrimaryLocation x),
      opt ''primary_topic'' (WorkTopic x),
      opt ''sustainable_development_goals'' (pyd_list (WorkSDG x)),
      opt ''type_crossref'' (t_str x), opt ''updated_date'' (Date8601 x),
      opt ''abstract_embedding_nomic_embed_text'' (NomicEmbedText768 x)]"

definition Work_sql_order :: "string list" where
  "Work_sql_order =
     [''id'', ''doi'', ''title'', ''display_name'', ''publication_year'', ''publication_date'',
      ''type'', ''cited_by_count'', ''is_retracted'', ''is_paratext'', ''cited_by_api_url'',
      ''abstract_inverted_index'', ''language'']"

definition Work_sql_subtables :: "string list" where
  "Work_sql_subtables =
     [''primary_location'', ''locations'', ''best_oa_location'', ''authorships'', ''biblio'',
      ''topics'', ''concepts'', ''ids'', ''mesh'', ''open_access'', ''referenced_works'',
      ''related_works'']"

definition MULTIVALUE :: "string list" where
  "MULTIVALUE =
     [''locations'', ''authorships'', ''topics'', ''concepts'', ''mesh'', ''referenced_works'',
      ''related_works'']"

text \<open>\<^verbatim>\<open>SQL_TABLES_TO_CLASSES[subtable]._sql_order\<close>.\<close>

definition subtable_sql_order :: "string \<Rightarrow> string list" where
  "subtable_sql_order subtable =
     (if subtable \<in> {''primary_location'', ''locations'', ''best_oa_location''}
        then BaseWorkLocation_sql_order
      else if subtable = ''authorships'' then WorkAuthorship_sql_order
      else if subtable = ''biblio'' then WorkBiblio_sql_order
      else if subtable = ''topics'' then WorkTopic_sql_order
      else if subtable = ''concepts'' then WorkConcept_sql_order
      else if subtable = ''ids'' then WorkIDs_sql_order
      else if subtable = ''mesh'' then WorkMesh_sql_order
      else if subtable = ''open_access'' then WorkOpenAccess_sql_order
      else if subtable = ''referenced_works'' then WorkReferencedWork_sql_order
      else if subtable = ''related_works'' then WorkRelatedWork_sql_order
      else [])"

definition Work_replicate_id_1 :: "pyval \<Rightarrow> error + pyval" where
  "Work_replicate_id_1 self =
     rbind (replicate_in_list ''counts_by_year'' ''author_id'' self) (\<lambda>s1.
     rbind (replicate_in_dict ''ids'' ''work_id'' s1) (\<lambda>s2.
     rbind (replicate_in_list ''locations'' ''work_id'' s2) (\<lambda>s3.
     rbind (replicate_in_list ''authorships'' ''work_id'' s3)
       (replicate_in_dict ''biblio'' ''work_id''))))"

definition Work_replicate_id_2 :: "pyval \<Rightarrow> error + pyval" where
  "Work_replicate_id_2 self =
     rbind (replicate_in_list ''topics'' ''work_id'' self) (\<lambda>s1.
     rbind (replicate_in_list ''concepts'' ''work_id'' s1) (\<lambda>s2.
     rbind (replicate_in_list ''mesh'' ''work_id'' s2)
       (replicate_in_dict ''open_access'' ''work_id'')))"

definition Work_replicate_id_3 :: "pyval \<Rightarrow> error + pyval" where
  "Work_replicate_id_3 self =
     rbind (replicate_in_dict ''best_oa_location'' ''work_id'' self) (\<lambda>s1.
     rbind (replicate_in_dict ''primary_location'' ''work_id'' s1)
       (replicate_in_list ''locations'' ''work_id''))"

text \<open>
  \<^verbatim>\<open>for n, other in enumerate(self[sub]): self[sub][n] = _construct_dict_from_id(self["id"], other)\<close>.
  Over a list every element is replaced. Over a dict that is not empty the assignment
  adds the key 0 and the iteration then raises RuntimeError; a string or a model
  instance does not support the assignment.
\<close>

definition wrap_ids :: "string \<Rightarrow> pyval \<Rightarrow> error + pyval" where
  "wrap_ids sub self =
     rbind (check sub self) (\<lambda>c.
       if \<not> c then Inr self
       else rbind (py_getitem self sub) (\<lambda>coll.
         case coll of
           PList xs \<Rightarrow>
             rbind (mapM (\<lambda>other. rbind (py_getitem self ''id'')
                                     (\<lambda>i. Inr (construct_dict_from_id i other))) xs)
               (\<lambda>xs'. py_setitem self sub (PList xs'))
         | _ \<Rightarrow>
             rbind (py_iter coll) (\<lambda>items.
               if items = [] then Inr self
               else rbind (py_getitem self ''id'') (\<lambda>i.
                      Inl (case coll of PDict d \<Rightarrow> RuntimeError | _ \<Rightarrow> TypeError)))))"

definition Work_work_id_ref_related :: "pyval \<Rightarrow> error + pyval" where
  "Work_work_id_ref_related self =
     rbind (wrap_ids ''related_works'' self) (wrap_ids ''referenced_works'')"

text \<open>
  The body of the loop of \<^verbatim>\<open>_flatten_authorships\<close> for one authorship: the entries
  it appends to the new list.
\<close>

definition fan_out :: "pyval \<Rightarrow> error + pyval list" where
  "fan_out authorship =
     rbind (check ''institutions'' authorship) (\<lambda>c.
       if \<not> c then Inr [authorship]
       else rbind (py_getitem authorship ''institutions'') (\<lambda>insts.
         if insts = PNone then Inr [authorship]
         else rbind (py_len insts) (\<lambda>n.
           if n = 0 then Inr [authorship]
           else rbind (py_iter insts)
                  (mapM (\<lambda>institution.
                     rbind (py_getitem institution ''id'') (\<lambda>i.
                     rbind (py_setitem authorship ''institution_id'' i) (\<lambda>authorship'.
                       py_setitem authorship' ''institutions'' (PList [institution]))))))))"

definition Work_flatten_authorships :: "pyval \<Rightarrow> error + pyval" where
  "Work_flatten_authorships self =
     rbind (check ''authorships'' self) (\<lambda>c.
       if \<not> c then Inr self
       else rbind (py_getitem self ''authorships'') (\<lambda>coll.
            rbind (py_iter coll) (\<lambda>items.
            rbind (mapM fan_out items) (\<lambda>yss.
              py_setitem self ''authorships'' (PList (concat yss))))))"

text \<open>The before-validators of Work, the one defined last first.\<close>

definition Work_before :: "pyval \<Rightarrow> error + pyval" where
  "Work_before v =
     rbind (Work_flatten_authorships v) (\<lambda>v1.
     rbind (Work_work_id_ref_related v1) (\<lambda>v2.
     rbind (Work_replicate_id_3 v2) (\<lambda>v3.
     rbind (Work_replicate_id_2 v3) Work_replicate_id_1)))"

definition Work :: "ext \<Rightarrow> pyval \<Rightarrow> error + pyval" where
  "Work x v = rbind (Work_before v) (pyd_model ''Work'' (Work_fields x))"

text \<open>The computed field \<^verbatim>\<open>abstract\<close>.\<close>

definition Work_abstract :: "ext \<Rightarrow> pyval \<Rightarrow> error + pyval" where
  "Work_abstract x self =
     (if getattr self ''abstract_inverted_index'' = PNone then Inr PNone
      else rbind (construct_abstract_from_index x (getattr self ''abstract_inverted_index''))
             (\<lambda>s. Inr (PStr s)))"

section \<open>common.py: SQLTable.to_sql_values\<close>

text \<open>\<^verbatim>\<open>value.replace('Z', '+00:00')\<close>.\<close>

definition replace_Z :: "string \<Rightarrow> string" where
  "replace_Z s = concat (map (\<lambda>c. if c = CHR ''Z'' then ''+00:00'' else [c]) s)"

definition to_sql_value :: "ext \<Rightarrow> pyval \<Rightarrow> pyval" where
  "to_sql_value x val =
     (case val of
        PDict d \<Rightarrow> PStr (dumps x val)
      | PStr s \<Rightarrow>
          if s \<noteq> [] \<and> 10 \<le> length s then
            (if s ! 4 = CHR ''-'' \<and> s ! 7 = CHR ''-'' then
               (if CHR ''T'' \<in> set s \<or> CHR '' '' \<in> set s then
                  (case fromisoformat x (replace_Z s) of
                     Some d \<Rightarrow> PDateTime d | None \<Rightarrow> val)
                else
                  (case fromisoformat x (s @ ''T00:00:00'') of
                     Some d \<Rightarrow> PDateTime d | None \<Rightarrow> val))
             else val)
          else val
      | _ \<Rightarrow> val)"

definition to_sql_values :: "ext \<Rightarrow> string list \<Rightarrow> pyval \<Rightarrow> pyval list" where
  "to_sql_values x sql_order self = map (\<lambda>key. to_sql_value x (getattr self key)) sql_order"

section \<open>works.py: Work.from_sql, and the rows of a Work\<close>

text \<open>\<^verbatim>\<open>dict(zip(sql_order, t))\<close> for a row \<open>t\<close>; a tuple is a \<open>PList\<close>.\<close>

definition zip_dict :: "string list \<Rightarrow> pyval \<Rightarrow> error + pyval" where
  "zip_dict sql_order t = rbind (py_iter t) (\<lambda>cells. Inr (PDict (zip sql_order cells)))"

text \<open>\<^verbatim>\<open>t[1]\<close>.\<close>

fun py_index1 :: "pyval \<Rightarrow> error + pyval" where
  "py_index1 (PList xs) = (if 1 < length xs then Inr (xs ! 1) else Inl IndexError)"
| "py_index1 (PStr s) = (if 1 < length s then Inr (PStr [s ! 1]) else Inl IndexError)"
| "py_index1 (PDict d) = Inl KeyError"
| "py_index1 v = Inl TypeError"

text \<open>
  One round of the loop over \<^verbatim>\<open>_sql_subtables\<close>, without a database connection and
  with the subtables already queried.
\<close>

definition from_sql_subtable ::
  "(string \<times> pyval) list \<Rightarrow> string \<Rightarrow> (string \<times> pyval) list
     \<Rightarrow> error + (string \<times> pyval) list" where
  "from_sql_subtable subtables subtable args =
     (case map_of subtables subtable of
        None \<Rightarrow> Inr args
      | Some rows \<Rightarrow>
          if subtable \<in> {''referenced_works'', ''related_works''} then
            rbind (py_iter rows) (\<lambda>ts.
            rbind (mapM py_index1 ts) (\<lambda>ids. Inr (AList.update subtable (PList ids) args)))
          else if subtable \<in> set MULTIVALUE then
            rbind (py_iter rows) (\<lambda>ts.
            rbind (mapM (zip_dict (subtable_sql_order subtable)) ts) (\<lambda>ds.
              Inr (AList.update subtable (PList ds) args)))
          else
            rbind (zip_dict (subtable_sql_order subtable) rows) (\<lambda>d.
              Inr (AList.update subtable d args)))"

fun from_sql_subtables ::
  "(string \<times> pyval) list \<Rightarrow> string list \<Rightarrow> (string \<times> pyval) list
     \<Rightarrow> error + (string \<times> pyval) list" where
  "from_sql_subtables subtables [] args = Inr args"
| "from_sql_subtables subtables (subtable # rest) args =
     rbind (from_sql_subtable subtables subtable args) (from_sql_subtables subtables rest)"

definition Work_from_sql ::
  "ext \<Rightarrow> pyval \<Rightarrow> (string \<times> pyval) list option \<Rightarrow> error + pyval" where
  "Work_from_sql x t subtables =
     rbind (py_iter t) (\<lambda>cells.
       let args = zip Work_sql_order cells in
       case subtables of
         None \<Rightarrow> Work x (PDict args)
       | Some st \<Rightarrow>
           rbind (from_sql_subtables st Work_sql_subtables args) (\<lambda>args'. Work x (PDict args')))"

text \<open>
  The rows written for one Work (\<^verbatim>\<open>scripts/example_upload.py\<close>): the root row, and
  for every subtable that is not None one row per element of a list, or one row.
\<close>

definition subtable_rows :: "ext \<Rightarrow> pyval \<Rightarrow> string \<Rightarrow> (string \<times> pyval) list" where
  "subtable_rows x work subtable =
     (case getattr work subtable of
        PNone \<Rightarrow> []
      | PList as \<Rightarrow>
          [(subtable, PList (map (\<lambda>a. PList (to_sql_values x (subtable_sql_order subtable) a)) as))]
      | a \<Rightarrow> [(subtable, PList (to_sql_values x (subtable_sql_order subtable) a))])"

definition Work_rows :: "ext \<Rightarrow> pyval \<Rightarrow> pyval \<times> (string \<times> pyval) list" where
  "Work_rows x work =
     (PList (to_sql_values x Work_sql_order work),
      concat (map (subtable_rows x work) Work_sql_subtables))"

section \<open>A library that coerces nothing\<close>

text \<open>
  For evaluation at concrete records whose values already have their declared types:
  the library parameters that reject every other input.
\<close>

definition strict_lib :: ext where
  "strict_lib =
     \<lparr>lax = (\<lambda>t v. None), int_of_str = (\<lambda>s. None), isoformat = (\<lambda>d. []),
      strftime_seconds = (\<lambda>d. []), fromisoformat = (\<lambda>s. None), dumps = (\<lambda>v. []),
      loads = (\<lambda>s. None), union_first = (\<lambda>a b. True)\<rparr>"

section \<open>Notions for stating the properties\<close>

text \<open>The value a raw mapping holds under a key, if it is a dict that has the key.\<close>

fun dget :: "pyval \<Rightarrow> string \<Rightarrow> pyval option" where
  "dget (PDict d) k = map_of d k"
| "dget v k = None"

fun field_name :: "field \<Rightarrow> string" where
  "field_name (Field name aliases required f) = name"

text \<open>
  A before-validator with frame \<open>K\<close> maps a dict to a dict and leaves every key
  outside \<open>K\<close> as it was.
\<close>

definition frame :: "string set \<Rightarrow> (pyval \<Rightarrow> error + pyval) \<Rightarrow> bool" where
  "frame K f = (\<forall>d v'. f (PDict d) = Inr v' \<longrightarrow>
      (\<exists>d'. v' = PDict d' \<and> (\<forall>k. k \<notin> K \<longrightarrow> map_of d' k = map_of d k)))"

text \<open>The keys under which the before-validators of Work write.\<close>

definition Work_before_keys :: "string set" where
  "Work_before_keys =
     {''authorships'', ''related_works'', ''referenced_works'', ''best_oa_location'',
      ''primary_location'', ''locations'', ''topics'', ''concepts'', ''mesh'', ''open_access'',
      ''counts_by_year'', ''ids'', ''biblio''}"

text \<open>
  The before-validators as sequences of local steps: a step reads the value under one key
  and the id of the record, and writes a new value under that key.
\<close>

definition id_or_KeyError :: "pyval option \<Rightarrow> error + pyval" where
  "id_or_KeyError i = (case i of None \<Rightarrow> Inl KeyError | Some v \<Rightarrow> Inr v)"

definition local_step ::
  "string \<Rightarrow> (pyval \<Rightarrow> pyval option \<Rightarrow> error + pyval) \<Rightarrow> (string \<times> pyval) list
     \<Rightarrow> error + (string \<times> pyval) list" where
  "local_step sub F d =
     (case map_of d sub of
        None \<Rightarrow> Inr d
      | Some s \<Rightarrow>
          if s = PNone then Inr d
          else rbind (F s (map_of d ''id'')) (\<lambda>w. Inr (AList.update sub w d)))"

definition lift_dict :: "((string \<times> pyval) list \<Rightarrow> error + (string \<times> pyval) list) \<Rightarrow> pyval \<Rightarrow> error + pyval" where
  "lift_dict g v = (case v of PDict d \<Rightarrow> rbind (g d) (\<lambda>d'. Inr (PDict d')) | _ \<Rightarrow> Inl TypeError)"

definition in_dict_step :: "string \<Rightarrow> pyval \<Rightarrow> pyval option \<Rightarrow> error + pyval" where
  "in_dict_step key s i = rbind (id_or_KeyError i) (py_setitem s key)"

definition in_list_step :: "string \<Rightarrow> pyval \<Rightarrow> pyval option \<Rightarrow> error + pyval" where
  "in_list_step key coll i =
     rbind (py_iter coll) (\<lambda>items.
     rbind (mapM (\<lambda>item. rbind (id_or_KeyError i) (py_setitem item key)) items) (\<lambda>items'.
       case coll of PList xs \<Rightarrow> Inr (PList items') | _ \<Rightarrow> Inr coll))"

definition wrap_step :: "pyval \<Rightarrow> pyval option \<Rightarrow> error + pyval" where
  "wrap_step coll i =
     (case coll of
        PList xs \<Rightarrow>
          rbind (mapM (\<lambda>other. rbind (id_or_KeyError i)
                                  (\<lambda>i. Inr (construct_dict_from_id i other))) xs)
            (\<lambda>xs'. Inr (PList xs'))
      | _ \<Rightarrow>
          rbind (py_iter coll) (\<lambda>items.
            if items = [] then Inr coll
            else rbind (id_or_KeyError i) (\<lambda>i.
                   Inl (case coll of PDict d \<Rightarrow> RuntimeError | _ \<Rightarrow> TypeError))))"

definition flatten_step :: "pyval \<Rightarrow> pyval option \<Rightarrow> error + pyval" where
  "flatten_step coll i =
     rbind (py_iter coll) (\<lambda>items.
     rbind (mapM fan_out items) (\<lambda>yss. Inr (PList (concat yss))))"

type_synonym step = "string \<times> (pyval \<Rightarrow> pyval option \<Rightarrow> error + pyval)"

fun run_steps :: "step list \<Rightarrow> (string \<times> pyval) list \<Rightarrow> error + (string \<times> pyval) list" where
  "run_steps [] d = Inr d"
| "run_steps (st # rest) d = rbind (local_step (fst st) (snd st) d) (run_steps rest)"

definition Work_replicate_id_1_steps :: "step list" where
  "Work_replicate_id_1_steps =
     [(''counts_by_year'', in_list_step ''author_id''), (''ids'', in_dict_step ''work_id''),
      (''locations'', in_list_step ''work_id''), (''authorships'', in_list_step ''work_id''),
      (''biblio'', in_dict_step ''work_id'')]"

definition Work_replicate_id_2_steps :: "step list" where
  "Work_replicate_id_2_steps =
     [(''topics'', in_list_step ''work_id''), (''concepts'', in_list_step ''work_id''),
      (''mesh'', in_list_step ''work_id''), (''open_access'', in_dict_step ''work_id'')]"

definition Work_replicate_id_3_steps :: "step list" where
  "Work_replicate_id_3_steps =
     [(''best_oa_location'', in_dict_step ''work_id''),
      (''primary_location'', in_dict_step ''work_id''),
      (''locations'', in_list_step ''work_id'')]"

definition Work_before_steps :: "step list" where
  "Work_before_steps =
     [(''authorships'', flatten_step)]
     @ [(''related_works'', wrap_step), (''referenced_works'', wrap_step)]
     @ Work_replicate_id_3_steps @ Work_replicate_id_2_steps @ Work_replicate_id_1_steps"

text \<open>A step that leaves the empty list as it is.\<close>

definition keeps_empty :: "(pyval \<Rightarrow> pyval option \<Rightarrow> error + pyval) \<Rightarrow> bool" where
  "keeps_empty F = (\<forall>i. F (PList []) i = Inr (PList []))"


section \<open>Example records\<close>



fun field_aliases :: "field \<Rightarrow> string list" where
  "field_aliases (Field name aliases required f) = aliases"

definition Work_before_pre :: "step list" where
  "Work_before_pre =
     [(''authorships'', flatten_step), (''related_works'', wrap_step),
      (''referenced_works'', wrap_step)]"

definition Work_before_post :: "step list" where
  "Work_before_post =
     [(''primary_location'', in_dict_step ''work_id''), (''locations'', in_list_step ''work_id'')]
     @ Work_replicate_id_2_steps @ Work_replicate_id_1_steps"

text \<open>
  The abstract as the specification words it, for an inverted index given as words with
  their positions: as many slots as the largest position plus one, each slot holding the
  word recorded at its position (the word that comes last in the index when several
  are recorded there, the empty string when none is), joined with single spaces.
\<close>

definition slot_word :: "(string \<times> int list) list \<Rightarrow> nat \<Rightarrow> string" where
  "slot_word idx j =
     (case filter (\<lambda>wp. int j \<in> set (snd wp)) idx of
        [] \<Rightarrow> ''''
      | ws \<Rightarrow> fst (last ws))"

definition abstract_of_positions :: "(string \<times> int list) list \<Rightarrow> string" where
  "abstract_of_positions idx =
     join_space (map (slot_word idx) [0 ..< nat (Max (set (concat (map snd idx))) + 1)])"

text \<open>The inverted index as the decoded JSON carries it.\<close>

definition index_dict :: "(string \<times> int list) list \<Rightarrow> (string \<times> pyval) list" where
  "index_dict idx = map (\<lambda>wp. (fst wp, PList (map PInt (snd wp)))) idx"

section \<open>Basic facts\<close>

lemma rbind_Inl [simp]: "rbind (Inl e) f = Inl e"
  by (simp add: rbind_def)

lemma rbind_Inr [simp]: "rbind (Inr a) f = f a"
  by (simp add: rbind_def)

lemma rbind_eq_Inr: "rbind m f = Inr b \<longleftrightarrow> (\<exists>a. m = Inr a \<and> f a = Inr b)"
  by (cases m) simp_all

lemma pyd_seq_Inr: "pyd_seq f xs = Inr ys \<longleftrightarrow> list_all2 (\<lambda>a b. f a = Inr b) xs ys"
proof (induction xs arbitrary: ys)
  case Nil
  then show ?case by auto
next
  case (Cons a as)
  show ?case
  proof (cases "f a")
    case (Inl e)
    then show ?thesis
      by (auto simp: rbind_eq_Inr list_all2_Cons1)
  next
    case (Inr b)
    then show ?thesis
      using Cons.IH by (auto simp: rbind_eq_Inr list_all2_Cons1)
  qed
qed

lemma mapM_Inr: "mapM f xs = Inr ys \<longleftrightarrow> list_all2 (\<lambda>a b. f a = Inr b) xs ys"
  by (induction xs arbitrary: ys) (auto simp: rbind_eq_Inr list_all2_Cons1)

lemma validate_field_name:
  "validate_field d fld = Inr (k, v) \<Longrightarrow> k = field_name fld"
  by (cases fld) (auto simp: rbind_eq_Inr split: option.splits if_splits)

lemma fields_lookup:
  "pyd_seq (validate_field d) flds = Inr fs \<Longrightarrow>
   find (\<lambda>fld. field_name fld = name) flds = Some fld \<Longrightarrow>
   \<exists>v. validate_field d fld = Inr (name, v) \<and> map_of fs name = Some v"
proof (induction flds arbitrary: fs)
  case Nil
  then show ?case by simp
next
  case (Cons a flds)
  from Cons.prems(1) have "list_all2 (\<lambda>a b. validate_field d a = Inr b) (a # flds) fs"
    by (simp only: pyd_seq_Inr)
  then obtain b bs where fs: "fs = b # bs"
    and b: "validate_field d a = Inr b" and bs: "pyd_seq (validate_field d) flds = Inr bs"
    by (auto simp: pyd_seq_Inr list_all2_Cons1)
  obtain k v where kv: "b = (k, v)" by (cases b)
  have k: "k = field_name a" using b kv validate_field_name by blast
  show ?case
  proof (cases "field_name a = name")
    case True
    then show ?thesis using Cons.prems(2) b kv k fs by auto
  next
    case False
    then show ?thesis using Cons.IH[OF bs] Cons.prems(2) fs kv k by auto
  qed
qed

lemma check_dict:
  "check k (PDict d) = Inr (case map_of d k of None \<Rightarrow> False | Some v \<Rightarrow> v \<noteq> PNone)"
  by (auto simp: check_def split: option.splits)

lemma replicate_in_dict_dict:
  "replicate_in_dict sub key (PDict d) =
     (case map_of d sub of
        None \<Rightarrow> Inr (PDict d)
      | Some s \<Rightarrow>
          if s = PNone then Inr (PDict d)
          else (case map_of d ''id'' of
                  None \<Rightarrow> Inl KeyError
                | Some i \<Rightarrow>
                    (case s of
                       PDict sd \<Rightarrow> Inr (PDict (AList.update sub (PDict (AList.update key i sd)) d))
                     | _ \<Rightarrow> Inl TypeError)))"
  by (auto simp: replicate_in_dict_def check_dict split: option.splits pyval.splits)

lemma replicate_in_list_dict:
  "replicate_in_list sub key (PDict d) =
     (case map_of d sub of
        None \<Rightarrow> Inr (PDict d)
      | Some coll \<Rightarrow>
          if coll = PNone then Inr (PDict d)
          else rbind (py_iter coll) (\<lambda>items.
               rbind (mapM (\<lambda>item. rbind (py_getitem (PDict d) ''id'') (py_setitem item key)) items)
                 (\<lambda>items'. case coll of
                      PList xs \<Rightarrow> py_setitem (PDict d) sub (PList items')
                    | _ \<Rightarrow> Inr (PDict d))))"
  by (simp add: replicate_in_list_def check_dict split: option.splits)

lemma frame_mono: "frame K f \<Longrightarrow> K \<subseteq> K' \<Longrightarrow> frame K' f"
  unfolding frame_def by blast

lemma frame_bind:
  assumes "frame K f" and "frame K' g"
  shows "frame (K \<union> K') (\<lambda>v. rbind (f v) g)"
  using assms unfolding frame_def rbind_eq_Inr by (metis UnCI)


lemma frame_I:
  assumes "\<And>d v'. f (PDict d) = Inr v' \<Longrightarrow> v' = PDict d \<or> (\<exists>k\<in>K. \<exists>w. v' = PDict (AList.update k w d))"
  shows "frame K f"
  unfolding frame_def
proof (intro allI impI)
  fix d v'
  assume "f (PDict d) = Inr v'"
  from assms[OF this] show "\<exists>d'. v' = PDict d' \<and> (\<forall>k. k \<notin> K \<longrightarrow> map_of d' k = map_of d k)"
    by (auto simp: update_conv')
qed

lemma setitem_dict_cases:
  "(case coll of PList xs \<Rightarrow> py_setitem (PDict d) sub (g xs) | _ \<Rightarrow> Inr (PDict d)) = Inr v'
   \<Longrightarrow> v' = PDict d \<or> (\<exists>w. v' = PDict (AList.update sub w d))"
  by (cases coll) auto

lemma frame_replicate_in_dict: "frame {sub} (replicate_in_dict sub key)"
proof (rule frame_I)
  fix d v'
  assume "replicate_in_dict sub key (PDict d) = Inr v'"
  then show "v' = PDict d \<or> (\<exists>k\<in>{sub}. \<exists>w. v' = PDict (AList.update k w d))"
    unfolding replicate_in_dict_dict
    by (cases "map_of d sub"; cases "map_of d ''id''"; cases "the (map_of d sub)")
       (auto split: if_splits)
qed

lemma frame_replicate_in_list: "frame {sub} (replicate_in_list sub key)"
proof (rule frame_I)
  fix d v'
  assume "replicate_in_list sub key (PDict d) = Inr v'"
  then show "v' = PDict d \<or> (\<exists>k\<in>{sub}. \<exists>w. v' = PDict (AList.update k w d))"
    unfolding replicate_in_list_dict
    by (cases "map_of d sub")
       (auto simp: rbind_eq_Inr split: if_splits dest: setitem_dict_cases)
qed


lemma frame_wrap_ids: "frame {sub} (wrap_ids sub)"
proof (rule frame_I)
  fix d v'
  assume a: "wrap_ids sub (PDict d) = Inr v'"
  show "v' = PDict d \<or> (\<exists>k\<in>{sub}. \<exists>w. v' = PDict (AList.update k w d))"
  proof (cases "check sub (PDict d) = Inr True")
    case False
    then show ?thesis using a by (auto simp: wrap_ids_def check_dict split: option.splits)
  next
    case True
    then obtain coll where c: "map_of d sub = Some coll"
      by (auto simp: check_dict split: option.splits)
    show ?thesis
    proof (cases coll)
      case (PList xs)
      then show ?thesis using a True c by (auto simp: wrap_ids_def rbind_eq_Inr)
    qed (use a True c in \<open>auto simp: wrap_ids_def rbind_eq_Inr split: if_splits\<close>)
  qed
qed

lemma frame_flatten: "frame {''authorships''} Work_flatten_authorships"
proof (rule frame_I)
  fix d v'
  assume a: "Work_flatten_authorships (PDict d) = Inr v'"
  show "v' = PDict d \<or> (\<exists>k\<in>{''authorships''}. \<exists>w. v' = PDict (AList.update k w d))"
  proof (cases "check ''authorships'' (PDict d) = Inr True")
    case False
    then show ?thesis using a
      by (auto simp: Work_flatten_authorships_def check_dict split: option.splits)
  next
    case True
    then show ?thesis using a
      by (auto simp: Work_flatten_authorships_def rbind_eq_Inr)
  qed
qed

lemma frame_Work_replicate_id_1:
  "frame {''counts_by_year'', ''ids'', ''locations'', ''authorships'', ''biblio''} Work_replicate_id_1"
proof -
  have "frame ({''counts_by_year''} \<union> ({''ids''} \<union> ({''locations''} \<union> ({''authorships''} \<union> {''biblio''}))))
          Work_replicate_id_1"
    unfolding Work_replicate_id_1_def
    by (intro frame_bind frame_replicate_in_dict frame_replicate_in_list)
  then show ?thesis by (rule frame_mono) auto
qed

lemma frame_Work_replicate_id_2:
  "frame {''topics'', ''concepts'', ''mesh'', ''open_access''} Work_replicate_id_2"
proof -
  have "frame ({''topics''} \<union> ({''concepts''} \<union> ({''mesh''} \<union> {''open_access''}))) Work_replicate_id_2"
    unfolding Work_replicate_id_2_def
    by (intro frame_bind frame_replicate_in_dict frame_replicate_in_list)
  then show ?thesis by (rule frame_mono) auto
qed

lemma frame_Work_replicate_id_3:
  "frame {''best_oa_location'', ''primary_location'', ''locations''} Work_replicate_id_3"
proof -
  have "frame ({''best_oa_location''} \<union> ({''primary_location''} \<union> {''locations''})) Work_replicate_id_3"
    unfolding Work_replicate_id_3_def
    by (intro frame_bind frame_replicate_in_dict frame_replicate_in_list)
  then show ?thesis by (rule frame_mono) auto
qed

lemma frame_Work_work_id_ref_related:
  "frame {''related_works'', ''referenced_works''} Work_work_id_ref_related"
proof -
  have "frame ({''related_works''} \<union> {''referenced_works''}) Work_work_id_ref_related"
    unfolding Work_work_id_ref_related_def
    by (intro frame_bind frame_wrap_ids)
  then show ?thesis by (rule frame_mono) auto
qed

lemma frame_Work_before: "frame Work_before_keys Work_before"
proof -
  have "frame ({''authorships''} \<union> ({''related_works'', ''referenced_works''}
          \<union> ({''best_oa_location'', ''primary_location'', ''locations''}
          \<union> ({''topics'', ''concepts'', ''mesh'', ''open_access''}
          \<union> {''counts_by_year'', ''ids'', ''locations'', ''authorships'', ''biblio''}))))
          Work_before"
    unfolding Work_before_def
    by (intro frame_bind frame_flatten frame_Work_work_id_ref_related
          frame_Work_replicate_id_3 frame_Work_replicate_id_2 frame_Work_replicate_id_1)
  then show ?thesis by (rule frame_mono) (auto simp: Work_before_keys_def)
qed

lemma Work_Inr_fields:
  assumes "Work x (PDict raw) = Inr w"
  shows "\<exists>d fs. Work_before (PDict raw) = Inr (PDict d)
    \<and> (\<forall>k. k \<notin> Work_before_keys \<longrightarrow> map_of d k = map_of raw k)
    \<and> w = PObj ''Work'' fs
    \<and> pyd_seq (validate_field d) (Work_fields x) = Inr fs"
proof -
  from assms obtain v1 where b: "Work_before (PDict raw) = Inr v1"
    and m: "pyd_model ''Work'' (Work_fields x) v1 = Inr w"
    by (auto simp: Work_def rbind_eq_Inr)
  from frame_Work_before b obtain d where d: "v1 = PDict d"
    and fr: "\<And>k. k \<notin> Work_before_keys \<Longrightarrow> map_of d k = map_of raw k"
    unfolding frame_def by blast
  from m d obtain fs where "w = PObj ''Work'' fs"
    "pyd_seq (validate_field d) (Work_fields x) = Inr fs"
    by (auto simp: pyd_model_def rbind_eq_Inr)
  with b d fr show ?thesis by blast
qed

lemma abstract_absent:
  assumes "Work x (PDict raw) = Inr w"
    and "map_of raw ''abstract_inverted_index'' \<in> {None, Some PNone, Some (PDict [])}"
  shows "Work_abstract x w = Inr PNone"
proof -
  from Work_Inr_fields[OF assms(1)] obtain d fs
    where fr: "\<And>k. k \<notin> Work_before_keys \<Longrightarrow> map_of d k = map_of raw k"
    and w: "w = PObj ''Work'' fs"
    and fs: "pyd_seq (validate_field d) (Work_fields x) = Inr fs"
    by blast
  have "map_of d ''abstract_inverted_index'' = map_of raw ''abstract_inverted_index''"
    by (rule fr) (simp add: Work_before_keys_def)
  with assms(2) have l: "map_of d ''abstract_inverted_index'' \<in> {None, Some PNone, Some (PDict [])}"
    by simp
  have "find (\<lambda>fld. field_name fld = ''abstract_inverted_index'') (Work_fields x) =
          Some (Field ''abstract_inverted_index'' [''abstract_inverted_index''] False
            (\<lambda>v. rbind (pyd_optional pyd_dict v) Work_validate_abstract_inverted_index))"
    by (simp add: Work_fields_def opt_def req_def)
  from fields_lookup[OF fs this] obtain v where
    v: "validate_field d (Field ''abstract_inverted_index'' [''abstract_inverted_index''] False
            (\<lambda>v. rbind (pyd_optional pyd_dict v) Work_validate_abstract_inverted_index))
          = Inr (''abstract_inverted_index'', v)"
    and m: "map_of fs ''abstract_inverted_index'' = Some v"
    by blast
  from v l have "v = PNone"
    by (auto simp: pyd_optional_def pyd_dict_def Work_validate_abstract_inverted_index_def
        split: option.splits)
  with m w show ?thesis by (simp add: Work_abstract_def)
qed



lemma frame_dget:
  "frame K f \<Longrightarrow> k \<notin> K \<Longrightarrow> f (PDict d) = Inr v' \<Longrightarrow> \<exists>d'. v' = PDict d' \<and> map_of d' k = map_of d k"
  unfolding frame_def by blast

lemma pyd_model_getattr:
  assumes "pyd_model cls flds (PDict d) = Inr w"
    and "find (\<lambda>fld. field_name fld = name) flds = Some fld"
  shows "\<exists>v. validate_field d fld = Inr (name, v) \<and> getattr w name = v"
proof -
  from assms(1) obtain fs where w: "w = PObj cls fs"
    and fs: "pyd_seq (validate_field d) flds = Inr fs"
    by (auto simp: pyd_model_def rbind_eq_Inr)
  from fields_lookup[OF fs assms(2)] w show ?thesis by auto
qed

lemma getattr_setattr_other: "k \<noteq> k' \<Longrightarrow> getattr (setattr w k' v) k = getattr w k"
  by (cases w) (simp_all add: update_conv')

lemma Work_before_best_oa_location:
  assumes "Work_before (PDict raw) = Inr v"
    and "map_of raw ''best_oa_location'' = Some (PDict b)"
  shows "\<exists>d i. v = PDict d \<and> map_of d ''best_oa_location'' = Some (PDict (AList.update ''work_id'' i b))"
proof -
  from assms(1) obtain v1 v2 v3 v4 where
    1: "Work_flatten_authorships (PDict raw) = Inr v1"
    and 2: "Work_work_id_ref_related v1 = Inr v2"
    and 3: "Work_replicate_id_3 v2 = Inr v3"
    and 4: "Work_replicate_id_2 v3 = Inr v4"
    and 5: "Work_replicate_id_1 v4 = Inr v"
    by (auto simp: Work_before_def rbind_eq_Inr)
  from frame_dget[OF frame_flatten _ 1, of "''best_oa_location''"] obtain d1
    where d1: "v1 = PDict d1" "map_of d1 ''best_oa_location'' = Some (PDict b)"
    using assms(2) by auto
  from frame_dget[OF frame_Work_work_id_ref_related _ 2[unfolded d1(1)], of "''best_oa_location''"]
  obtain d2 where d2: "v2 = PDict d2" "map_of d2 ''best_oa_location'' = Some (PDict b)"
    using d1 by auto
  from 3 obtain u1 u2 where
    a: "replicate_in_dict ''best_oa_location'' ''work_id'' (PDict d2) = Inr u1"
    and b: "replicate_in_dict ''primary_location'' ''work_id'' u1 = Inr u2"
    and c: "replicate_in_list ''locations'' ''work_id'' u2 = Inr v3"
    unfolding d2(1) by (auto simp: Work_replicate_id_3_def rbind_eq_Inr)
  from a d2(2) obtain i where
    u1: "u1 = PDict (AList.update ''best_oa_location'' (PDict (AList.update ''work_id'' i b)) d2)"
    by (auto simp: replicate_in_dict_dict split: option.splits)
  let ?b = "PDict (AList.update ''work_id'' i b)"
  have m1: "dget u1 ''best_oa_location'' = Some ?b"
    by (simp add: u1 update_conv')
  from frame_dget[OF frame_replicate_in_dict _ b[unfolded u1], of "''best_oa_location''"] m1
  obtain e2 where e2: "u2 = PDict e2" "map_of e2 ''best_oa_location'' = Some ?b"
    by (auto simp: u1)
  from frame_dget[OF frame_replicate_in_list _ c[unfolded e2(1)], of "''best_oa_location''"] e2
  obtain d3 where d3: "v3 = PDict d3" "map_of d3 ''best_oa_location'' = Some ?b"
    by auto
  from frame_dget[OF frame_Work_replicate_id_2 _ 4[unfolded d3(1)], of "''best_oa_location''"] d3
  obtain d4 where d4: "v4 = PDict d4" "map_of d4 ''best_oa_location'' = Some ?b"
    by auto
  from frame_dget[OF frame_Work_replicate_id_1 _ 5[unfolded d4(1)], of "''best_oa_location''"] d4
  obtain d5 where "v = PDict d5" "map_of d5 ''best_oa_location'' = Some ?b"
    by auto
  then show ?thesis by blast
qed

lemma BaseWorkLocation_is_oa:
  assumes "BaseWorkLocation cls x (PDict b) = Inr loc"
  shows "\<exists>v. pyd_optional (t_bool x) (case map_of b ''is_oa'' of None \<Rightarrow> PNone | Some u \<Rightarrow> u) = Inr v
     \<and> getattr loc ''is_oa'' = v"
proof -
  from assms obtain w where m: "pyd_model cls (BaseWorkLocation_fields x) (PDict b) = Inr w"
    and p: "populate_source_id w = Inr loc"
    by (auto simp: BaseWorkLocation_def rbind_eq_Inr)
  have "find (\<lambda>fld. field_name fld = ''is_oa'') (BaseWorkLocation_fields x) = Some (opt ''is_oa'' (t_bool x))"
    by (simp add: BaseWorkLocation_fields_def opt_def)
  from pyd_model_getattr[OF m this] obtain v where
    v: "validate_field b (opt ''is_oa'' (t_bool x)) = Inr (''is_oa'', v)" and g: "getattr w ''is_oa'' = v"
    by blast
  from p have "getattr loc ''is_oa'' = getattr w ''is_oa''"
    by (auto simp: populate_source_id_def getattr_setattr_other split: if_splits)
  with v g show ?thesis
    by (auto simp: opt_def rbind_eq_Inr pyd_optional_def split: option.splits)
qed

lemma best_oa_location_field:
  "find (\<lambda>fld. field_name fld = ''best_oa_location'') (Work_fields x) =
     Some (Field ''best_oa_location'' [''best_oa_location''] False
        (\<lambda>v. rbind (pyd_optional (WorkBestOALocation x) v) Work_validate_best_oa_location))"
  by (simp add: Work_fields_def opt_def req_def)

lemma Work_best_oa_location_is_oa:
  assumes "Work x (PDict raw) = Inr w"
  shows "getattr w ''best_oa_location'' = PNone
      \<or> py_truthy (getattr (getattr w ''best_oa_location'') ''is_oa'')"
proof -
  from Work_Inr_fields[OF assms] obtain d fs where w: "w = PObj ''Work'' fs"
    and fs: "pyd_seq (validate_field d) (Work_fields x) = Inr fs"
    by blast
  from fields_lookup[OF fs best_oa_location_field] obtain v where
    v: "validate_field d (Field ''best_oa_location'' [''best_oa_location''] False
        (\<lambda>v. rbind (pyd_optional (WorkBestOALocation x) v) Work_validate_best_oa_location))
        = Inr (''best_oa_location'', v)"
    and m: "map_of fs ''best_oa_location'' = Some v"
    by blast
  from v have "v = PNone \<or> py_truthy (getattr v ''is_oa'')"
    by (auto simp: rbind_eq_Inr Work_validate_best_oa_location_def split: option.splits if_splits)
  with m w show ?thesis by simp
qed

lemma Work_best_oa_location_not_oa:
  assumes "map_of raw ''best_oa_location'' = Some (PDict b)"
    and "map_of b ''is_oa'' = Some (PBool False)"
  shows "\<exists>e. Work x (PDict raw) = Inl e"
proof (cases "Work x (PDict raw)")
  case (Inl e)
  then show ?thesis by blast
next
  case (Inr w)
  from Work_Inr_fields[OF Inr] obtain d fs where b: "Work_before (PDict raw) = Inr (PDict d)"
    and fs: "pyd_seq (validate_field d) (Work_fields x) = Inr fs"
    by blast
  from Work_before_best_oa_location[OF b assms(1)] obtain i where
    d: "map_of d ''best_oa_location'' = Some (PDict (AList.update ''work_id'' i b))"
    by auto
  from fields_lookup[OF fs best_oa_location_field] obtain v where
    v: "validate_field d (Field ''best_oa_location'' [''best_oa_location''] False
        (\<lambda>v. rbind (pyd_optional (WorkBestOALocation x) v) Work_validate_best_oa_location))
        = Inr (''best_oa_location'', v)"
    by blast
  with d obtain loc where
    loc: "WorkBestOALocation x (PDict (AList.update ''work_id'' i b)) = Inr loc"
    and ok: "Work_validate_best_oa_location loc = Inr v"
    by (auto simp: rbind_eq_Inr pyd_optional_def)
  from BaseWorkLocation_is_oa[OF loc[unfolded WorkBestOALocation_def]] assms(2)
  have "getattr loc ''is_oa'' = PBool False"
    by (auto simp: update_conv' pyd_optional_def pyd_scalar_def)
  moreover from loc have "loc \<noteq> PNone"
    by (auto simp: WorkBestOALocation_def BaseWorkLocation_def rbind_eq_Inr pyd_model_def
        populate_source_id_def split: if_splits)
  ultimately have "Work_validate_best_oa_location loc = Inl ValidationError"
    by (simp add: Work_validate_best_oa_location_def)
  with ok show ?thesis by simp
qed

lemma rbind_assoc: "rbind (rbind m f) g = rbind m (\<lambda>a. rbind (f a) g)"
  by (cases m) simp_all

lemma getitem_id: "py_getitem (PDict d) ''id'' = id_or_KeyError (map_of d ''id'')"
  by (simp add: id_or_KeyError_def split: option.splits)

lemma setitem_self: "map_of d sub = Some s \<Longrightarrow> AList.update sub s d = d"
  by (rule update_triv)

lemma replicate_in_dict_local:
  "replicate_in_dict sub key (PDict d) = lift_dict (local_step sub (in_dict_step key)) (PDict d)"
proof (cases "map_of d sub")
  case None
  then show ?thesis
    by (simp add: replicate_in_dict_def check_dict lift_dict_def local_step_def)
next
  case (Some s)
  show ?thesis
  proof (cases "s = PNone")
    case True
    then show ?thesis using Some
      by (simp add: replicate_in_dict_def check_dict lift_dict_def local_step_def)
  next
    case False
    then show ?thesis using Some
      by (cases "map_of d ''id''"; cases s)
         (simp_all add: replicate_in_dict_def check_dict lift_dict_def local_step_def
                    in_dict_step_def id_or_KeyError_def)
  qed
qed

lemma replicate_in_list_local:
  "replicate_in_list sub key (PDict d) = lift_dict (local_step sub (in_list_step key)) (PDict d)"
proof (cases "map_of d sub")
  case None
  then show ?thesis
    by (simp add: replicate_in_list_def check_dict lift_dict_def local_step_def)
next
  case (Some coll)
  show ?thesis
  proof (cases "coll = PNone")
    case True
    then show ?thesis using Some
      by (simp add: replicate_in_list_def check_dict lift_dict_def local_step_def)
  next
    case False
    have "rbind (py_iter coll) (\<lambda>items.
            rbind (mapM (\<lambda>item. rbind (id_or_KeyError (map_of d ''id'')) (py_setitem item key)) items)
              (\<lambda>items'. case coll of PList xs \<Rightarrow> py_setitem (PDict d) sub (PList items')
                         | _ \<Rightarrow> Inr (PDict d)))
          = rbind (in_list_step key coll (map_of d ''id'')) (\<lambda>w. Inr (PDict (AList.update sub w d)))"
      unfolding in_list_step_def using Some
      by (cases coll; cases "py_iter coll")
         (auto simp: rbind_def update_triv split: sum.splits)
    then show ?thesis using Some False
      by (simp add: replicate_in_list_def check_dict lift_dict_def local_step_def
          id_or_KeyError_def rbind_assoc)
  qed
qed

lemma wrap_ids_local:
  "wrap_ids sub (PDict d) = lift_dict (local_step sub wrap_step) (PDict d)"
proof (cases "map_of d sub")
  case None
  then show ?thesis
    by (simp add: wrap_ids_def check_dict lift_dict_def local_step_def)
next
  case (Some coll)
  show ?thesis
  proof (cases "coll = PNone")
    case True
    then show ?thesis using Some
      by (simp add: wrap_ids_def check_dict lift_dict_def local_step_def)
  next
    case False
    then show ?thesis using Some
      by (cases coll; cases "map_of d ''id''")
         (auto simp: wrap_ids_def check_dict lift_dict_def local_step_def getitem_id
            wrap_step_def rbind_def update_triv id_or_KeyError_def split: sum.splits)
  qed
qed

lemma flatten_local:
  "Work_flatten_authorships (PDict d) = lift_dict (local_step ''authorships'' flatten_step) (PDict d)"
  by (cases "map_of d ''authorships''")
     (auto simp: Work_flatten_authorships_def check_dict lift_dict_def local_step_def
        flatten_step_def rbind_def split: sum.splits)

text \<open>Generic facts about local steps.\<close>

lemma update_update_swap:
  "k \<noteq> k' \<Longrightarrow> k \<in> fst ` set al \<Longrightarrow>
   AList.update k v (AList.update k' v' al) = AList.update k' v' (AList.update k v al)"
  by (induction al) auto

lemma local_step_update:
  assumes "k \<noteq> sub" "k \<noteq> ''id''" "k \<in> fst ` set d"
  shows "local_step sub F (AList.update k v d) =
         rbind (local_step sub F d) (\<lambda>d'. Inr (AList.update k v d'))"
  using assms update_update_swap[of k sub d v]
  by (auto simp: local_step_def update_conv' rbind_def
      split: option.splits sum.splits)

lemma local_step_delete:
  assumes "k \<noteq> sub" "k \<noteq> ''id''"
  shows "local_step sub F (AList.delete k d) =
         rbind (local_step sub F d) (\<lambda>d'. Inr (AList.delete k d'))"
  using assms
  by (auto simp: local_step_def delete_conv' rbind_def delete_update
      split: option.splits sum.splits)

lemma local_step_keys:
  assumes "local_step sub F d = Inr d'"
  shows "fst ` set d' = fst ` set d"
proof (cases "d' = d")
  case False
  with assms obtain s w where s: "map_of d sub = Some s" and d': "d' = AList.update sub w d"
    by (auto simp: local_step_def rbind_eq_Inr split: option.splits if_splits)
  from s have "sub \<in> fst ` set d"
    by (metis map_of_SomeD image_eqI fst_conv)
  then show ?thesis by (auto simp: d' dom_update)
qed simp

lemma local_step_other:
  "local_step sub F d = Inr d' \<Longrightarrow> k \<noteq> sub \<Longrightarrow> map_of d' k = map_of d k"
  by (auto simp: local_step_def rbind_eq_Inr update_conv' split: option.splits if_splits)


lemma lift_dict_PDict [simp]:
  "lift_dict g (PDict d) = rbind (g d) (\<lambda>d'. Inr (PDict d'))"
  by (simp add: lift_dict_def)

lemma run_steps_append: "run_steps (a @ b) d = rbind (run_steps a d) (run_steps b)"
proof (induction a arbitrary: d)
  case Nil
  show ?case by simp
next
  case (Cons st a)
  have "run_steps (a @ b) = (\<lambda>d. rbind (run_steps a d) (run_steps b))"
    by (rule ext) (rule Cons.IH)
  then show ?case by (simp add: rbind_assoc)
qed

lemma rbind_lift:
  "rbind (rbind m (\<lambda>d'. Inr (PDict d'))) f = rbind m (\<lambda>d'. f (PDict d'))"
  by (cases m) simp_all

lemma rbind_Inr_right: "rbind m Inr = m"
  by (cases m) simp_all

lemma rbind_cong_PDict:
  "(\<And>d'. f (PDict d') = lift_dict g (PDict d')) \<Longrightarrow>
   rbind (rbind m (\<lambda>d'. Inr (PDict d'))) f = rbind (rbind m g) (\<lambda>d'. Inr (PDict d'))"
  by (cases m) simp_all

lemma Work_replicate_id_1_steps:
  "Work_replicate_id_1 (PDict d) = lift_dict (run_steps Work_replicate_id_1_steps) (PDict d)"
  by (simp add: Work_replicate_id_1_def Work_replicate_id_1_steps_def replicate_in_dict_local
      replicate_in_list_local rbind_assoc rbind_Inr_right)

lemma Work_replicate_id_2_steps:
  "Work_replicate_id_2 (PDict d) = lift_dict (run_steps Work_replicate_id_2_steps) (PDict d)"
  by (simp add: Work_replicate_id_2_def Work_replicate_id_2_steps_def replicate_in_dict_local
      replicate_in_list_local rbind_assoc rbind_Inr_right)

lemma Work_replicate_id_3_steps:
  "Work_replicate_id_3 (PDict d) = lift_dict (run_steps Work_replicate_id_3_steps) (PDict d)"
  by (simp add: Work_replicate_id_3_def Work_replicate_id_3_steps_def replicate_in_dict_local
      replicate_in_list_local rbind_assoc rbind_Inr_right)

lemma Work_flatten_authorships_steps:
  "Work_flatten_authorships (PDict d) = lift_dict (run_steps [(''authorships'', flatten_step)]) (PDict d)"
  by (simp add: flatten_local rbind_assoc rbind_Inr_right)

lemma Work_work_id_ref_related_steps:
  "Work_work_id_ref_related (PDict d) =
     lift_dict (run_steps [(''related_works'', wrap_step), (''referenced_works'', wrap_step)]) (PDict d)"
  by (simp add: Work_work_id_ref_related_def wrap_ids_local rbind_assoc rbind_Inr_right)

lemma Work_before_steps:
  "Work_before (PDict d) = lift_dict (run_steps Work_before_steps) (PDict d)"
  unfolding Work_before_def Work_before_steps_def run_steps_append
    Work_flatten_authorships_steps lift_dict_PDict rbind_assoc rbind_Inr
    Work_work_id_ref_related_steps Work_replicate_id_3_steps Work_replicate_id_2_steps
    Work_replicate_id_1_steps
  by (rule refl)


lemma run_steps_other:
  "run_steps steps d = Inr d' \<Longrightarrow> k \<notin> fst ` set steps \<Longrightarrow> map_of d' k = map_of d k"
proof (induction steps arbitrary: d)
  case Nil
  then show ?case by simp
next
  case (Cons st steps)
  from Cons.prems(1) obtain d1 where 1: "local_step (fst st) (snd st) d = Inr d1"
    and 2: "run_steps steps d1 = Inr d'"
    by (auto simp: rbind_eq_Inr)
  from Cons.prems(2) have "k \<noteq> fst st" "k \<notin> fst ` set steps" by auto
  with Cons.IH[OF 2] local_step_other[OF 1] show ?case by simp
qed

lemma run_steps_keys:
  "run_steps steps d = Inr d' \<Longrightarrow> fst ` set d' = fst ` set d"
proof (induction steps arbitrary: d)
  case Nil
  then show ?case by simp
next
  case (Cons st steps)
  from Cons.prems(1) obtain d1 where 1: "local_step (fst st) (snd st) d = Inr d1"
    and 2: "run_steps steps d1 = Inr d'"
    by (auto simp: rbind_eq_Inr)
  from Cons.IH[OF 2] local_step_keys[OF 1] show ?case by simp
qed

lemma run_steps_update:
  assumes "k \<notin> fst ` set steps" "k \<noteq> ''id''" "k \<in> fst ` set d"
  shows "run_steps steps (AList.update k v d) =
         rbind (run_steps steps d) (\<lambda>d'. Inr (AList.update k v d'))"
  using assms
proof (induction steps arbitrary: d)
  case Nil
  then show ?case by simp
next
  case (Cons st steps)
  from Cons.prems have k: "k \<noteq> fst st" "k \<notin> fst ` set steps" by auto
  show ?case
  proof (cases "local_step (fst st) (snd st) d")
    case (Inl e)
    then show ?thesis
      by (simp add: local_step_update[OF k(1) Cons.prems(2,3)])
  next
    case (Inr d1)
    from local_step_keys[OF Inr] Cons.prems(3) have "k \<in> fst ` set d1" by simp
    from Cons.IH[OF k(2) Cons.prems(2) this] Inr show ?thesis
      by (simp add: local_step_update[OF k(1) Cons.prems(2,3)])
  qed
qed

lemma local_step_delete_empty:
  assumes "map_of d k = Some (PList [])" "k \<noteq> ''id''" "sub = k \<longrightarrow> keeps_empty F"
  shows "local_step sub F (AList.delete k d) =
         rbind (local_step sub F d) (\<lambda>d'. Inr (AList.delete k d'))"
proof (cases "sub = k")
  case True
  with assms show ?thesis
    by (simp add: local_step_def delete_conv' keeps_empty_def update_triv)
next
  case False
  then show ?thesis using assms(2) by (simp add: local_step_delete)
qed

lemma local_step_keeps:
  assumes "local_step sub F d = Inr d'" "map_of d k = Some (PList [])" "sub = k \<longrightarrow> keeps_empty F"
  shows "map_of d' k = Some (PList [])"
proof (cases "sub = k")
  case True
  with assms show ?thesis
    by (auto simp: local_step_def keeps_empty_def update_conv')
next
  case False
  with local_step_other[OF assms(1), of k] assms(2) show ?thesis by simp
qed

lemma run_steps_delete_empty:
  assumes "map_of d k = Some (PList [])" "k \<noteq> ''id''"
    and "\<forall>st\<in>set steps. fst st = k \<longrightarrow> keeps_empty (snd st)"
  shows "run_steps steps (AList.delete k d) =
         rbind (run_steps steps d) (\<lambda>d'. Inr (AList.delete k d'))"
  using assms
proof (induction steps arbitrary: d)
  case Nil
  then show ?case by simp
next
  case (Cons st steps)
  from Cons.prems(3) have k: "fst st = k \<longrightarrow> keeps_empty (snd st)"
    and ks: "\<forall>st\<in>set steps. fst st = k \<longrightarrow> keeps_empty (snd st)" by auto
  note ls = local_step_delete_empty[OF Cons.prems(1,2) k]
  show ?case
  proof (cases "local_step (fst st) (snd st) d")
    case (Inl e)
    then show ?thesis by (simp add: ls)
  next
    case (Inr d1)
    from local_step_keeps[OF Inr Cons.prems(1) k] have "map_of d1 k = Some (PList [])" .
    from Cons.IH[OF this Cons.prems(2) ks] Inr show ?thesis by (simp add: ls)
  qed
qed











lemma mapM_length: "mapM f xs = Inr ys \<Longrightarrow> length ys = length xs"
  unfolding mapM_Inr by (auto dest: list_all2_lengthD)






lemma pyd_seq_one_invalid:
  fixes f g :: "'a \<Rightarrow> error + 'b" and xs :: "'a list"
  assumes "list_all2 (\<lambda>a b. f a = Inr b) xs ys"
    and "\<forall>a\<in>set xs. g a = f a \<or> g a = Inl ValidationError"
    and "\<exists>a\<in>set xs. g a = Inl ValidationError"
  shows "pyd_seq g xs = Inl ValidationError"
  using assms
proof (induction xs ys rule: list_all2_induct)
  case Nil
  then show ?case by simp
next
  case (Cons a xs b ys)
  have rest: "pyd_seq g xs = Inl ValidationError \<or> (\<exists>bs. pyd_seq g xs = Inr bs)"
  proof (cases "\<exists>a\<in>set xs. g a = Inl ValidationError")
    case True
    with Cons.IH Cons.prems(1) show ?thesis by simp
  next
    case False
    with Cons.prems(1) have "\<forall>a\<in>set xs. g a = f a" by auto
    with Cons.hyps(2) have "list_all2 (\<lambda>a b. g a = Inr b) xs ys"
      by (auto simp: list_all2_conv_all_nth)
    then show ?thesis by (auto simp: pyd_seq_Inr)
  qed
  show ?case
  proof (cases "g a = Inl ValidationError")
    case True
    with rest show ?thesis by auto
  next
    case False
    with Cons.prems(1) Cons.hyps(1) have ga: "g a = Inr b" by auto
    from False Cons.prems(2) have "\<exists>a\<in>set xs. g a = Inl ValidationError" by auto
    with Cons.IH Cons.prems(1) have "pyd_seq g xs = Inl ValidationError" by simp
    with ga show ?thesis by simp
  qed
qed

lemma lookup_aliases_cong:
  "\<forall>a\<in>set al. map_of d a = map_of d' a \<Longrightarrow> lookup_aliases d al = lookup_aliases d' al"
  by (induction al) (auto split: option.splits)

lemma validate_field_cong:
  "\<forall>a\<in>set (field_aliases fld). map_of d a = map_of d' a \<Longrightarrow>
   validate_field d fld = validate_field d' fld"
  by (cases fld) (simp add: lookup_aliases_cong[of _ d d'])

lemma agree_outside:
  "\<forall>a. a \<noteq> k \<longrightarrow> f a = g a \<Longrightarrow> k \<notin> S \<Longrightarrow> \<forall>a\<in>S. f a = g a"
  by auto

lemma pyd_seq_total:
  "\<forall>a\<in>set xs. \<exists>b. g a = Inr b \<Longrightarrow> \<exists>ys. pyd_seq g xs = Inr ys"
  by (induction xs) auto

lemma pyd_seq_Inr_each:
  "pyd_seq f xs = Inr ys \<Longrightarrow> a \<in> set xs \<Longrightarrow> \<exists>b. f a = Inr b"
  unfolding pyd_seq_Inr by (induction xs ys rule: list_all2_induct) auto

lemma BaseWorkLocation_aliases:
  "\<forall>fld\<in>set (BaseWorkLocation_fields x).
     ''is_oa'' \<in> set (field_aliases fld) \<longrightarrow> fld = opt ''is_oa'' (t_bool x)"
  by (simp add: BaseWorkLocation_fields_def opt_def)

lemma BaseWorkLocation_not_oa:
  assumes "BaseWorkLocation cls x (PDict bt) = Inr loc_t"
    and "\<forall>a. a \<noteq> ''is_oa'' \<longrightarrow> map_of bf a = map_of bt a"
    and "map_of bf ''is_oa'' = Some (PBool False)"
  shows "\<exists>loc. BaseWorkLocation cls x (PDict bf) = Inr loc
           \<and> getattr loc ''is_oa'' = PBool False \<and> loc \<noteq> PNone"
proof -
  from assms(1) obtain fst where t: "pyd_seq (validate_field bt) (BaseWorkLocation_fields x) = Inr fst"
    by (auto simp: BaseWorkLocation_def rbind_eq_Inr pyd_model_def)
  have "\<forall>fld\<in>set (BaseWorkLocation_fields x). \<exists>r. validate_field bf fld = Inr r"
  proof
    fix fld assume fld: "fld \<in> set (BaseWorkLocation_fields x)"
    show "\<exists>r. validate_field bf fld = Inr r"
    proof (cases "''is_oa'' \<in> set (field_aliases fld)")
      case True
      with BaseWorkLocation_aliases fld have fld_eq: "fld = opt ''is_oa'' (t_bool x)" by blast
      have "validate_field bf (opt ''is_oa'' (t_bool x)) = Inr (''is_oa'', PBool False)"
        using assms(3) by (simp add: opt_def pyd_optional_def pyd_scalar_def)
      then show ?thesis unfolding fld_eq by (rule exI)
    next
      case False
      with assms(2) have "\<forall>a\<in>set (field_aliases fld). map_of bf a = map_of bt a"
        by (rule agree_outside)
      from validate_field_cong[OF this] pyd_seq_Inr_each[OF t fld] show ?thesis by simp
    qed
  qed
  from pyd_seq_total[OF this] obtain fs where
    "pyd_seq (validate_field bf) (BaseWorkLocation_fields x) = Inr fs" by blast
  then have "BaseWorkLocation cls x (PDict bf) = populate_source_id (PObj cls fs)"
    by (simp add: BaseWorkLocation_def pyd_model_def)
  moreover obtain loc where "populate_source_id (PObj cls fs) = Inr loc"
    unfolding populate_source_id_def by (cases "getattr (PObj cls fs) ''source'' \<noteq> PNone") auto
  ultimately have loc: "BaseWorkLocation cls x (PDict bf) = Inr loc" by simp
  from BaseWorkLocation_is_oa[OF loc] assms(3) have "getattr loc ''is_oa'' = PBool False"
    by (auto simp: pyd_optional_def pyd_scalar_def)
  then show ?thesis using loc by auto
qed

lemma Work_before_steps_split:
  "Work_before_steps =
     Work_before_pre @ [(''best_oa_location'', in_dict_step ''work_id'')] @ Work_before_post"
  by (simp add: Work_before_steps_def Work_before_pre_def Work_before_post_def
      Work_replicate_id_3_steps_def)

lemma Work_before_pre_keys: "''best_oa_location'' \<notin> fst ` set Work_before_pre"
  by (simp add: Work_before_pre_def)

lemma Work_before_post_keys: "''best_oa_location'' \<notin> fst ` set Work_before_post"
  by (simp add: Work_before_post_def Work_replicate_id_2_steps_def Work_replicate_id_1_steps_def)

text \<open>
  The before-validators on two records that differ in the dict under
  \<^verbatim>\<open>best_oa_location\<close> only.
\<close>

lemma Work_before_best_oa_location_change:
  assumes "map_of raw ''best_oa_location'' = Some (PDict b)"
    and "run_steps Work_before_steps (AList.update ''best_oa_location'' (PDict b') raw) = Inr dt"
  shows "\<exists>d i. run_steps Work_before_steps raw = Inr d
      \<and> map_of d ''best_oa_location'' = Some (PDict (AList.update ''work_id'' i b))
      \<and> map_of dt ''best_oa_location'' = Some (PDict (AList.update ''work_id'' i b'))
      \<and> (\<forall>k. k \<noteq> ''best_oa_location'' \<longrightarrow> map_of dt k = map_of d k)"
proof -
  let ?bol = "''best_oa_location''"
  from assms(1) have in_raw: "?bol \<in> fst ` set raw"
    by (metis map_of_SomeD image_eqI fst_conv)
  from assms(2) obtain pt qt where
    pt: "run_steps Work_before_pre (AList.update ?bol (PDict b') raw) = Inr pt"
    and qt: "local_step ?bol (in_dict_step ''work_id'') pt = Inr qt"
    and dt: "run_steps Work_before_post qt = Inr dt"
    by (auto simp: Work_before_steps_split run_steps_append rbind_eq_Inr)
  from pt obtain p where p: "run_steps Work_before_pre raw = Inr p"
    and pt_p: "pt = AList.update ?bol (PDict b') p"
    by (auto simp: run_steps_update[OF Work_before_pre_keys _ in_raw] rbind_eq_Inr)
  from run_steps_other[OF p Work_before_pre_keys] assms(1)
  have p_bol: "map_of p ?bol = Some (PDict b)" by simp
  from run_steps_keys[OF p] in_raw have in_p: "?bol \<in> fst ` set p" by simp
  from qt obtain i where i: "map_of pt ''id'' = Some i"
    and qt_eq: "qt = AList.update ?bol (PDict (AList.update ''work_id'' i b')) pt"
    by (cases "map_of pt ''id''")
       (auto simp: local_step_def pt_p update_conv' in_dict_step_def id_or_KeyError_def
          rbind_eq_Inr)
  from i have p_id: "map_of p ''id'' = Some i"
    by (simp add: pt_p update_conv')
  define q where "q = AList.update ?bol (PDict (AList.update ''work_id'' i b)) p"
  have q: "local_step ?bol (in_dict_step ''work_id'') p = Inr q"
    by (simp add: local_step_def p_bol p_id in_dict_step_def id_or_KeyError_def q_def)
  have qt_q: "qt = AList.update ?bol (PDict (AList.update ''work_id'' i b')) q"
    by (simp add: qt_eq pt_p q_def)
  from in_p have in_q: "?bol \<in> fst ` set q"
    by (simp add: q_def dom_update)
  from dt obtain d where d: "run_steps Work_before_post q = Inr d"
    and dt_d: "dt = AList.update ?bol (PDict (AList.update ''work_id'' i b')) d"
    by (auto simp: qt_q run_steps_update[OF Work_before_post_keys _ in_q] rbind_eq_Inr)
  from run_steps_other[OF d Work_before_post_keys]
  have d_bol: "map_of d ?bol = Some (PDict (AList.update ''work_id'' i b))"
    by (simp add: q_def update_conv')
  have "run_steps Work_before_steps raw = Inr d"
    by (simp add: Work_before_steps_split run_steps_append p q d)
  then show ?thesis using d_bol dt_d by (auto simp: update_conv')
qed

lemma Work_fields_best_oa_location_aliases:
  "\<forall>fld\<in>set (Work_fields x).
     ''best_oa_location'' \<in> set (field_aliases fld) \<longrightarrow>
     fld = Field ''best_oa_location'' [''best_oa_location''] False
        (\<lambda>v. rbind (pyd_optional (WorkBestOALocation x) v) Work_validate_best_oa_location)"
  by (simp add: Work_fields_def opt_def req_def)

lemma best_oa_location_field_mem:
  "Field ''best_oa_location'' [''best_oa_location''] False
        (\<lambda>v. rbind (pyd_optional (WorkBestOALocation x) v) Work_validate_best_oa_location)
     \<in> set (Work_fields x)"
  by (simp add: Work_fields_def)

lemma Work_not_oa_ValidationError:
  assumes "map_of raw ''best_oa_location'' = Some (PDict b)"
    and "map_of b ''is_oa'' = Some (PBool False)"
    and "Work x (PDict (AList.update ''best_oa_location''
            (PDict (AList.update ''is_oa'' (PBool True) b)) raw)) = Inr w"
  shows "Work x (PDict raw) = Inl ValidationError"
proof -
  let ?bol = "''best_oa_location''"
  let ?bt = "AList.update ''is_oa'' (PBool True) b"
  let ?fld = "Field ''best_oa_location'' [''best_oa_location''] False
        (\<lambda>v. rbind (pyd_optional (WorkBestOALocation x) v) Work_validate_best_oa_location)"
  from assms(3) obtain dt fs where
    dt: "run_steps Work_before_steps (AList.update ?bol (PDict ?bt) raw) = Inr dt"
    and fs: "pyd_seq (validate_field dt) (Work_fields x) = Inr fs"
    by (auto simp: Work_def Work_before_steps rbind_eq_Inr pyd_model_def)
  from Work_before_best_oa_location_change[OF assms(1) dt] obtain d i where
    d: "run_steps Work_before_steps raw = Inr d"
    and d_bol: "map_of d ?bol = Some (PDict (AList.update ''work_id'' i b))"
    and dt_bol: "map_of dt ?bol = Some (PDict (AList.update ''work_id'' i ?bt))"
    and same: "\<forall>k. k \<noteq> ?bol \<longrightarrow> map_of dt k = map_of d k"
    by blast
  from pyd_seq_Inr_each[OF fs best_oa_location_field_mem] dt_bol obtain loc_t where
    "WorkBestOALocation x (PDict (AList.update ''work_id'' i ?bt)) = Inr loc_t"
    by (auto simp: rbind_eq_Inr pyd_optional_def)
  then have "BaseWorkLocation ''WorkBestOALocation'' x (PDict (AList.update ''work_id'' i ?bt))
      = Inr loc_t"
    by (simp add: WorkBestOALocation_def)
  moreover have "\<forall>a. a \<noteq> ''is_oa'' \<longrightarrow>
      map_of (AList.update ''work_id'' i b) a = map_of (AList.update ''work_id'' i ?bt) a"
    by (simp add: update_conv')
  moreover have "map_of (AList.update ''work_id'' i b) ''is_oa'' = Some (PBool False)"
    using assms(2) by (simp add: update_conv')
  ultimately have "\<exists>loc. BaseWorkLocation ''WorkBestOALocation'' x
      (PDict (AList.update ''work_id'' i b)) = Inr loc
           \<and> getattr loc ''is_oa'' = PBool False \<and> loc \<noteq> PNone"
    by (rule BaseWorkLocation_not_oa)
  then obtain loc where loc: "WorkBestOALocation x (PDict (AList.update ''work_id'' i b)) = Inr loc"
    and "getattr loc ''is_oa'' = PBool False" "loc \<noteq> PNone"
    by (auto simp: WorkBestOALocation_def)
  then have bad: "validate_field d ?fld = Inl ValidationError"
    by (simp add: d_bol pyd_optional_def Work_validate_best_oa_location_def)
  have "\<forall>fld\<in>set (Work_fields x).
          validate_field d fld = validate_field dt fld \<or> validate_field d fld = Inl ValidationError"
  proof
    fix fld assume fld: "fld \<in> set (Work_fields x)"
    show "validate_field d fld = validate_field dt fld \<or> validate_field d fld = Inl ValidationError"
    proof (cases "?bol \<in> set (field_aliases fld)")
      case True
      with Work_fields_best_oa_location_aliases fld have "fld = ?fld" by blast
      with bad show ?thesis by simp
    next
      case False
      have "\<forall>k. k \<noteq> ?bol \<longrightarrow> map_of d k = map_of dt k"
        using same by simp
      from this False have "\<forall>a\<in>set (field_aliases fld). map_of d a = map_of dt a"
        by (rule agree_outside)
      from validate_field_cong[OF this] show ?thesis by simp
    qed
  qed
  moreover have "\<exists>fld\<in>set (Work_fields x). validate_field d fld = Inl ValidationError"
    using bad best_oa_location_field_mem by blast
  moreover from fs have "list_all2 (\<lambda>a b. validate_field dt a = Inr b) (Work_fields x) fs"
    by (simp only: pyd_seq_Inr)
  ultimately have "pyd_seq (validate_field d) (Work_fields x) = Inl ValidationError"
    using pyd_seq_one_invalid[where f="validate_field dt" and g="validate_field d"
        and xs="Work_fields x" and ys=fs] by blast
  then show ?thesis
    by (simp add: Work_def Work_before_steps d pyd_model_def)
qed

lemma pyd_scalar_native: "pyd_scalar x t v = Inr w \<Longrightarrow> native t w"
  by (auto simp: pyd_scalar_def split: if_splits option.splits)

lemma native_not_None: "native t w \<Longrightarrow> w \<noteq> PNone"
  by (cases t) auto

lemma opt_absent:
  assumes "validate_field d (opt name f) = Inr (name, v)"
    and "map_of d name = None \<or> map_of d name = Some PNone"
  shows "v = PNone"
  using assms by (auto simp: opt_def pyd_optional_def)

lemma frame_Source_replicate_id: "frame {''counts_by_year'', ''ids''} Source_replicate_id"
proof -
  have "frame ({''counts_by_year''} \<union> {''ids''}) Source_replicate_id"
    unfolding Source_replicate_id_def
    by (intro frame_bind frame_replicate_in_dict frame_replicate_in_list)
  then show ?thesis by (rule frame_mono) auto
qed

lemma frame_Institution_replicate_id:
  "frame {''geo'', ''counts_by_year'', ''ids'', ''associated_institutions''} Institution_replicate_id"
proof -
  have "frame ({''geo''} \<union> ({''counts_by_year''} \<union> ({''ids''} \<union> {''associated_institutions''})))
          Institution_replicate_id"
    unfolding Institution_replicate_id_def
    by (intro frame_bind frame_replicate_in_dict frame_replicate_in_list)
  then show ?thesis by (rule frame_mono) auto
qed

lemma DehydratedSource_host:
  assumes "DehydratedSource x (PDict rd) = Inr repo"
    and "map_of rd ''host_organization'' = None \<or> map_of rd ''host_organization'' = Some PNone"
  shows "getattr repo ''host_organization'' = PNone"
proof -
  have "find (\<lambda>fld. field_name fld = ''host_organization'')
          [req ''id'' (t_str x), opt ''issn_l'' (t_str x), opt ''display_name'' (t_str x),
           opt ''is_oa'' (t_bool x), opt ''is_in_doaj'' (t_bool x), opt ''issn'' (pyd_list (t_str x)),
           opt ''host_organization'' (t_str x),
           opt ''host_organization_lineage'' (pyd_list (t_str x)),
           opt ''host_organization_name'' (t_str x), opt ''is_core'' (t_bool x),
           opt ''type'' (t_str x)]
        = Some (opt ''host_organization'' (t_str x))"
    by (simp add: opt_def req_def)
  from pyd_model_getattr[OF assms(1)[unfolded DehydratedSource_def] this] obtain v where
    "validate_field rd (opt ''host_organization'' (t_str x)) = Inr (''host_organization'', v)"
    "getattr repo ''host_organization'' = v"
    by auto
  with opt_absent[OF _ assms(2)] show ?thesis by simp
qed

lemma Source_host:
  assumes "Source x (PDict rd) = Inr repo"
    and "map_of rd ''host_organization'' = None \<or> map_of rd ''host_organization'' = Some PNone"
  shows "getattr repo ''host_organization'' = PNone"
proof -
  from assms(1) obtain v1 where 1: "Source_replicate_id (PDict rd) = Inr v1"
    and 2: "pyd_model ''Source'' (Source_fields x) v1 = Inr repo"
    by (auto simp: Source_def rbind_eq_Inr)
  from frame_dget[OF frame_Source_replicate_id _ 1, of "''host_organization''"] obtain rd'
    where v1: "v1 = PDict rd'"
      and h: "map_of rd' ''host_organization'' = map_of rd ''host_organization''"
    by auto
  have "find (\<lambda>fld. field_name fld = ''host_organization'') (Source_fields x)
        = Some (opt ''host_organization'' (t_str x))"
    by (simp add: Source_fields_def opt_def req_def)
  from pyd_model_getattr[OF 2[unfolded v1] this] obtain v where
    "validate_field rd' (opt ''host_organization'' (t_str x)) = Inr (''host_organization'', v)"
    "getattr repo ''host_organization'' = v"
    by auto
  with opt_absent[of rd' "''host_organization''" "t_str x" v] h assms(2) show ?thesis by simp
qed

lemma Source_or_DehydratedSource_host:
  assumes "Source_or_DehydratedSource x (PDict rd) = Inr repo"
    and "map_of rd ''host_organization'' = None \<or> map_of rd ''host_organization'' = Some PNone"
  shows "getattr repo ''host_organization'' = PNone"
proof -
  from assms(1) have "Source x (PDict rd) = Inr repo \<or> DehydratedSource x (PDict rd) = Inr repo"
    by (auto simp: Source_or_DehydratedSource_def split: sum.splits if_splits)
  with Source_host[OF _ assms(2)] DehydratedSource_host[OF _ assms(2)] show ?thesis by blast
qed

lemma pyd_seq_set:
  "pyd_seq f xs = Inr ys \<Longrightarrow> a \<in> set xs \<Longrightarrow> \<exists>b\<in>set ys. f a = Inr b"
  unfolding pyd_seq_Inr by (induction xs ys rule: list_all2_induct) auto

lemma Institution_null_host:
  assumes 1: "Institution_replicate_id (PDict raw) = Inr v1"
    and 2: "pyd_model ''Institution'' (Institution_fields x) v1 = Inr w0"
    and rs: "map_of raw ''repositories'' = Some (PList rs)"
    and rd: "PDict rd \<in> set rs"
    and absent: "map_of rd ''host_organization'' = None
      \<or> map_of rd ''host_organization'' = Some PNone"
  shows "Institution_check_repositories w0 = Inl ValidationError"
proof -
  from frame_dget[OF frame_Institution_replicate_id _ 1, of "''repositories''"] rs
  obtain d where v1: "v1 = PDict d" and d: "map_of d ''repositories'' = Some (PList rs)"
    by auto
  have "find (\<lambda>fld. field_name fld = ''repositories'') (Institution_fields x)
        = Some (opt ''repositories'' (pyd_list (Source_or_DehydratedSource x)))"
    by (simp add: Institution_fields_def opt_def req_def)
  from pyd_model_getattr[OF 2[unfolded v1] this] obtain v where
    v: "validate_field d (opt ''repositories'' (pyd_list (Source_or_DehydratedSource x)))
          = Inr (''repositories'', v)"
    and gv: "getattr w0 ''repositories'' = v"
    by auto
  from v d obtain os where os: "pyd_seq (Source_or_DehydratedSource x) rs = Inr os"
    and v_os: "v = PList os"
    by (auto simp: opt_def pyd_optional_def pyd_list_def rbind_eq_Inr)
  from pyd_seq_set[OF os rd] obtain repo where repo: "repo \<in> set os"
    and "Source_or_DehydratedSource x (PDict rd) = Inr repo"
    by blast
  from Source_or_DehydratedSource_host[OF this(2) absent]
  have host: "getattr repo ''host_organization'' = PNone" .
  have "find (\<lambda>fld. field_name fld = ''id'') (Institution_fields x) = Some (req ''id'' (t_str x))"
    by (simp add: Institution_fields_def opt_def req_def)
  from pyd_model_getattr[OF 2[unfolded v1] this] obtain i where
    "validate_field d (req ''id'' (t_str x)) = Inr (''id'', i)" and gi: "getattr w0 ''id'' = i"
    by auto
  then have "native TStr i"
    by (auto simp: req_def rbind_eq_Inr split: option.splits dest: pyd_scalar_native)
  then have "getattr w0 ''id'' \<noteq> PNone"
    using gi native_not_None by blast
  with host repo have "\<exists>repo\<in>set os. getattr repo ''host_organization'' \<noteq> getattr w0 ''id''"
    by metis
  then show ?thesis
    by (simp add: Institution_check_repositories_def gv v_os)
qed

lemma mapM_py_int: "mapM (py_int x) (map PInt ps) = Inr ps"
  by (induction ps) simp_all

lemma index_positions:
  "mapM (\<lambda>kv. rbind (py_iter (snd kv)) (mapM (py_int x))) (index_dict idx) = Inr (map snd idx)"
  by (induction idx) (simp_all add: index_dict_def mapM_py_int)

lemma py_max_Max: "xs \<noteq> [] \<Longrightarrow> py_max xs = Max (set xs)"
proof (cases xs)
  case (Cons a list)
  have "Max (set (a # list)) = fold max list a" by (rule Max.set_eq_fold)
  then show ?thesis using Cons by (simp add: py_max_def)
qed simp

lemma place_word_positions:
  assumes "\<forall>p\<in>set ps. 0 \<le> p \<and> p < int (length slots)"
  shows "\<exists>slots'. place_word w (map PInt ps) slots = Inr slots' \<and> length slots' = length slots
          \<and> (\<forall>j<length slots. slots' ! j = (if int j \<in> set ps then w else slots ! j))"
  using assms
proof (induction ps arbitrary: slots)
  case Nil
  then show ?case by simp
next
  case (Cons p ps)
  from Cons.prems have p: "0 \<le> p" "p < int (length slots)" by auto
  let ?s1 = "slots[nat p := w]"
  have 1: "list_setitem slots (PInt p) w = Inr ?s1"
    using p by (simp add: list_setitem_int_def Let_def)
  have "\<forall>q\<in>set ps. 0 \<le> q \<and> q < int (length ?s1)"
    using Cons.prems by simp
  from Cons.IH[OF this] obtain slots' where
    s': "place_word w (map PInt ps) ?s1 = Inr slots'" "length slots' = length ?s1"
    "\<forall>j<length ?s1. slots' ! j = (if int j \<in> set ps then w else ?s1 ! j)"
    by blast
  have "\<forall>j<length slots. slots' ! j = (if int j \<in> set (p # ps) then w else slots ! j)"
  proof (intro allI impI)
    fix j assume j: "j < length slots"
    show "slots' ! j = (if int j \<in> set (p # ps) then w else slots ! j)"
    proof (cases "int j = p")
      case True
      then have "nat p = j" by simp
      with s'(3) j True show ?thesis by (auto simp: nth_list_update)
    next
      case False
      then have "nat p \<noteq> j" using p by auto
      with s'(3) j False show ?thesis by (auto simp: nth_list_update)
    qed
  qed
  with s' 1 show ?case by simp
qed

lemma place_words_positions:
  assumes "\<forall>wp\<in>set idx. \<forall>p\<in>set (snd wp). 0 \<le> p \<and> p < int (length slots)"
  shows "\<exists>slots'. place_words (index_dict idx) slots = Inr slots' \<and> length slots' = length slots
          \<and> (\<forall>j<length slots. slots' ! j =
                (case filter (\<lambda>wp. int j \<in> set (snd wp)) idx of
                   [] \<Rightarrow> slots ! j
                 | ws \<Rightarrow> fst (last ws)))"
  using assms
proof (induction idx arbitrary: slots)
  case Nil
  then show ?case by (simp add: index_dict_def)
next
  case (Cons wp idx)
  obtain w ps where wp: "wp = (w, ps)" by (cases wp)
  from Cons.prems wp have "\<forall>p\<in>set ps. 0 \<le> p \<and> p < int (length slots)" by auto
  from place_word_positions[OF this, of w] obtain s1 where
    s1: "place_word w (map PInt ps) slots = Inr s1" "length s1 = length slots"
    "\<forall>j<length slots. s1 ! j = (if int j \<in> set ps then w else slots ! j)"
    by blast
  from Cons.prems s1(2)
  have "\<forall>wp\<in>set idx. \<forall>p\<in>set (snd wp). 0 \<le> p \<and> p < int (length s1)" by auto
  from Cons.IH[OF this] obtain s2 where
    s2: "place_words (index_dict idx) s1 = Inr s2" "length s2 = length s1"
    "\<forall>j<length s1. s2 ! j =
        (case filter (\<lambda>wp. int j \<in> set (snd wp)) idx of [] \<Rightarrow> s1 ! j | ws \<Rightarrow> fst (last ws))"
    by blast
  have run: "place_words (index_dict (wp # idx)) slots = Inr s2"
    using s1(1) s2(1) by (simp add: index_dict_def wp)
  have "\<forall>j<length slots. s2 ! j =
          (case filter (\<lambda>wp. int j \<in> set (snd wp)) (wp # idx) of
             [] \<Rightarrow> slots ! j | ws \<Rightarrow> fst (last ws))"
  proof (intro allI impI)
    fix j assume j: "j < length slots"
    show "s2 ! j = (case filter (\<lambda>wp. int j \<in> set (snd wp)) (wp # idx) of
             [] \<Rightarrow> slots ! j | ws \<Rightarrow> fst (last ws))"
      using s2(3) s1(2,3) j
      by (cases "filter (\<lambda>wp. int j \<in> set (snd wp)) idx") (auto simp: wp)
  qed
  with run s2(2) s1(2) show ?case by auto
qed

lemma construct_abstract_from_positions:
  assumes pos: "\<forall>wp\<in>set idx. \<forall>p\<in>set (snd wp). 0 \<le> p"
    and ne: "concat (map snd idx) \<noteq> []"
  shows "construct_abstract_from_index x (PDict (index_dict idx)) = Inr (abstract_of_positions idx)"
proof -
  let ?list = "concat (map snd idx)"
  let ?mx = "Max (set ?list)"
  let ?n = "nat (?mx + 1)"
  let ?slots = "replicate ?n ''''"
  have bound: "\<forall>wp\<in>set idx. \<forall>p\<in>set (snd wp). 0 \<le> p \<and> p < int (length ?slots)"
  proof (intro ballI)
    fix wp p assume wp: "wp \<in> set idx" and p: "p \<in> set (snd wp)"
    then have "p \<in> set ?list" by auto
    then have "p \<le> ?mx" by simp
    moreover from pos wp p have "0 \<le> p" by blast
    ultimately show "0 \<le> p \<and> p < int (length ?slots)" by simp
  qed
  from place_words_positions[OF this] obtain slots' where
    run: "place_words (index_dict idx) ?slots = Inr slots'" and len: "length slots' = ?n"
    and nth: "\<forall>j<?n. slots' ! j =
                (case filter (\<lambda>wp. int j \<in> set (snd wp)) idx of
                   [] \<Rightarrow> ?slots ! j
                 | ws \<Rightarrow> fst (last ws))"
    by auto
  have "slots' = map (slot_word idx) [0 ..< ?n]"
  proof (rule nth_equalityI)
    show "length slots' = length (map (slot_word idx) [0 ..< ?n])" using len by simp
  next
    fix j assume "j < length slots'"
    with len have j: "j < ?n" by simp
    with nth show "slots' ! j = map (slot_word idx) [0 ..< ?n] ! j"
      by (cases "filter (\<lambda>wp. int j \<in> set (snd wp)) idx") (simp_all add: slot_word_def)
  qed
  with run ne show ?thesis
    by (auto simp: construct_abstract_from_index_def index_positions py_max_Max
        abstract_of_positions_def Let_def)
qed

lemma Work_abstract_index:
  assumes "Work x (PDict raw) = Inr w"
    and "map_of raw ''abstract_inverted_index'' = Some (PDict d)" and "d \<noteq> []"
  shows "Work_abstract x w = rbind (construct_abstract_from_index x (PDict d)) (\<lambda>s. Inr (PStr s))"
proof -
  from Work_Inr_fields[OF assms(1)] obtain d' fs
    where fr: "\<And>k. k \<notin> Work_before_keys \<Longrightarrow> map_of d' k = map_of raw k"
    and w: "w = PObj ''Work'' fs"
    and fs: "pyd_seq (validate_field d') (Work_fields x) = Inr fs"
    by blast
  have "map_of d' ''abstract_inverted_index'' = map_of raw ''abstract_inverted_index''"
    by (rule fr) (simp add: Work_before_keys_def)
  with assms(2) have l: "map_of d' ''abstract_inverted_index'' = Some (PDict d)"
    by simp
  have "find (\<lambda>fld. field_name fld = ''abstract_inverted_index'') (Work_fields x) =
          Some (Field ''abstract_inverted_index'' [''abstract_inverted_index''] False
            (\<lambda>v. rbind (pyd_optional pyd_dict v) Work_validate_abstract_inverted_index))"
    by (simp add: Work_fields_def opt_def req_def)
  from fields_lookup[OF fs this] obtain v where
    v: "validate_field d' (Field ''abstract_inverted_index'' [''abstract_inverted_index''] False
            (\<lambda>v. rbind (pyd_optional pyd_dict v) Work_validate_abstract_inverted_index))
          = Inr (''abstract_inverted_index'', v)"
    and m: "map_of fs ''abstract_inverted_index'' = Some v"
    by blast
  from v l assms(3) have "v = PDict d"
    by (auto simp: pyd_optional_def pyd_dict_def Work_validate_abstract_inverted_index_def)
  with m w show ?thesis by (simp add: Work_abstract_def)
qed

section \<open>The claims\<close>

lemma Inr_of_case: "(case r of Inl e \<Rightarrow> False | Inr w \<Rightarrow> P w) \<Longrightarrow> \<exists>w. r = Inr w \<and> P w"
  by (cases r) auto

subsection \<open>The derived abstract\<close>

text \<open>
  C6. The abstract of a Work is read off its inverted index by allocating as many slots as
  the largest position plus one, placing each word at each of its positions and joining
  the slots with single spaces: for every index of words with non-negative positions, at
  least one position in all, \<^verbatim>\<open>_construct_abstract_from_index\<close> returns
  \<open>abstract_of_positions\<close> of the index, whatever the order of the words in the dict,
  and so does the \<^verbatim>\<open>abstract\<close> of a Work normalized from a record with that index.
  For the index \<^verbatim>\<open>{"the": [0], "cat": [1], "sat": [2]}\<close>, in this or another order,
  that is \<^verbatim>\<open>"the cat sat"\<close>; a position with no word gives an empty slot. When a
  record that normalizes has no index, or has None or the empty dict \<^verbatim>\<open>{}\<close> for it, the
  abstract of the Work is None, not the empty string.
\<close>

theorem abstract_reconstruction:
  "((\<forall>wp\<in>set idx. \<forall>p\<in>set (snd wp). 0 \<le> p) \<longrightarrow> concat (map snd idx) \<noteq> [] \<longrightarrow>
      construct_abstract_from_index x (PDict (index_dict idx)) = Inr (abstract_of_positions idx)
      \<and> (\<forall>raw w. Work x (PDict raw) = Inr w \<longrightarrow>
            map_of raw ''abstract_inverted_index'' = Some (PDict (index_dict idx)) \<longrightarrow>
            Work_abstract x w = Inr (PStr (abstract_of_positions idx))))
   \<and> abstract_of_positions [(''the'', [0]), (''cat'', [1]), (''sat'', [2])] = ''the cat sat''
   \<and> abstract_of_positions [(''sat'', [2]), (''the'', [0]), (''cat'', [1])] = ''the cat sat''
   \<and> abstract_of_positions [(''b'', [1, 3]), (''a'', [0])] = ''a b  b''
   \<and> construct_abstract_from_index x
       (PDict [(''sat'', PList [PInt 2]), (''the'', PList [PInt 0]), (''cat'', PList [PInt 1])])
       = Inr ''the cat sat''
   \<and> construct_abstract_from_index x
       (PDict [(''b'', PList [PInt 1, PInt 3]), (''a'', PList [PInt 0])])
       = Inr ''a b  b''
   \<and> construct_abstract_from_index x
     (PDict [(''the'', PList [PInt 0]), (''cat'', PList [PInt 1]), (''sat'', PList [PInt 2])])
     = Inr ''the cat sat''
   \<and> (case Work x (PDict [(''id'', PStr ''W1''),
          (''abstract_inverted_index'',
           PDict [(''the'', PList [PInt 0]), (''cat'', PList [PInt 1]),
                  (''sat'', PList [PInt 2])])]) of
        Inl e \<Rightarrow> False
      | Inr w \<Rightarrow> Work_abstract x w = Inr (PStr ''the cat sat''))
   \<and> (\<forall>raw w. Work x (PDict raw) = Inr w
          \<longrightarrow> map_of raw ''abstract_inverted_index'' \<in> {None, Some PNone, Some (PDict [])}
          \<longrightarrow> Work_abstract x w = Inr PNone)"
proof (intro conjI allI impI)
  assume pos: "\<forall>wp\<in>set idx. \<forall>p\<in>set (snd wp). 0 \<le> p" and ne: "concat (map snd idx) \<noteq> []"
  then show c: "construct_abstract_from_index x (PDict (index_dict idx))
      = Inr (abstract_of_positions idx)"
    by (rule construct_abstract_from_positions)
  fix raw w
  assume w: "Work x (PDict raw) = Inr w"
    and i: "map_of raw ''abstract_inverted_index'' = Some (PDict (index_dict idx))"
  from ne have "index_dict idx \<noteq> []" by (auto simp: index_dict_def)
  from Work_abstract_index[OF w i this] c
  show "Work_abstract x w = Inr (PStr (abstract_of_positions idx))" by simp
next
  show "abstract_of_positions [(''the'', [0]), (''cat'', [1]), (''sat'', [2])] = ''the cat sat''"
    by code_simp
  show "abstract_of_positions [(''sat'', [2]), (''the'', [0]), (''cat'', [1])] = ''the cat sat''"
    by code_simp
  show "abstract_of_positions [(''b'', [1, 3]), (''a'', [0])] = ''a b  b''"
    by code_simp
  show "construct_abstract_from_index x
       (PDict [(''sat'', PList [PInt 2]), (''the'', PList [PInt 0]), (''cat'', PList [PInt 1])])
       = Inr ''the cat sat''"
    by code_simp
  show "construct_abstract_from_index x
       (PDict [(''b'', PList [PInt 1, PInt 3]), (''a'', PList [PInt 0])])
       = Inr ''a b  b''"
    by code_simp
  show "construct_abstract_from_index x
     (PDict [(''the'', PList [PInt 0]), (''cat'', PList [PInt 1]), (''sat'', PList [PInt 2])])
     = Inr ''the cat sat''"
    by code_simp
  show "case Work x (PDict [(''id'', PStr ''W1''),
          (''abstract_inverted_index'',
           PDict [(''the'', PList [PInt 0]), (''cat'', PList [PInt 1]),
                  (''sat'', PList [PInt 2])])]) of
        Inl e \<Rightarrow> False
      | Inr w \<Rightarrow> Work_abstract x w = Inr (PStr ''the cat sat'')"
    by code_simp
next
  fix raw w
  assume "Work x (PDict raw) = Inr w"
    and "map_of raw ''abstract_inverted_index'' \<in> {None, Some PNone, Some (PDict [])}"
  then show "Work_abstract x w = Inr PNone"
    by (rule abstract_absent)
qed

theorem abstract_reconstruction_witness:
  "(\<exists>w. Work strict_lib (PDict [(''id'', PStr ''W1''), (''abstract_inverted_index'', PDict [])])
          = Inr w
      \<and> Work_abstract strict_lib w = Inr PNone)
   \<and> construct_abstract_from_index strict_lib
        (PDict (index_dict [(''sat'', [2]), (''the'', [0, 3]), (''cat'', [1])]))
       = Inr (abstract_of_positions [(''sat'', [2]), (''the'', [0, 3]), (''cat'', [1])])
   \<and> (\<exists>w. Work strict_lib
             (PDict [(''id'', PStr ''W1''),
                     (''abstract_inverted_index'',
                      PDict (index_dict [(''sat'', [2]), (''the'', [0, 3]), (''cat'', [1])]))])
          = Inr w
      \<and> Work_abstract strict_lib w
          = Inr (PStr (abstract_of_positions [(''sat'', [2]), (''the'', [0, 3]), (''cat'', [1])])))"
proof -
  let ?idx = "[(''sat'', [2]), (''the'', [0, 3]), (''cat'', [1 :: int])]"
  let ?raw = "[(''id'', PStr ''W1''), (''abstract_inverted_index'', PDict (index_dict ?idx))]"
  have "case Work strict_lib
               (PDict [(''id'', PStr ''W1''), (''abstract_inverted_index'', PDict [])]) of
          Inl e \<Rightarrow> False | Inr w \<Rightarrow> True"
    by code_simp
  then obtain w where w: "Work strict_lib
      (PDict [(''id'', PStr ''W1''), (''abstract_inverted_index'', PDict [])]) = Inr w"
    by (auto dest: Inr_of_case)
  have "map_of [(''id'', PStr ''W1''), (''abstract_inverted_index'', PDict [])]
          ''abstract_inverted_index'' \<in> {None, Some PNone, Some (PDict [])}"
    by simp
  with abstract_reconstruction[of ?idx strict_lib] w
  have 1: "\<exists>w. Work strict_lib
              (PDict [(''id'', PStr ''W1''), (''abstract_inverted_index'', PDict [])]) = Inr w
      \<and> Work_abstract strict_lib w = Inr PNone"
    by blast
  have pos: "\<forall>wp\<in>set ?idx. \<forall>p\<in>set (snd wp). 0 \<le> p" by simp
  have ne: "concat (map snd ?idx) \<noteq> []" by simp
  have "case Work strict_lib (PDict ?raw) of Inl e \<Rightarrow> False | Inr w \<Rightarrow> True"
    by code_simp
  then obtain w' where w': "Work strict_lib (PDict ?raw) = Inr w'"
    by (auto dest: Inr_of_case)
  have m: "map_of ?raw ''abstract_inverted_index'' = Some (PDict (index_dict ?idx))"
    by simp
  from abstract_reconstruction[of ?idx strict_lib] pos ne
  have 2: "construct_abstract_from_index strict_lib (PDict (index_dict ?idx))
      = Inr (abstract_of_positions ?idx)"
    and 3: "\<forall>raw w. Work strict_lib (PDict raw) = Inr w \<longrightarrow>
            map_of raw ''abstract_inverted_index'' = Some (PDict (index_dict ?idx)) \<longrightarrow>
            Work_abstract strict_lib w = Inr (PStr (abstract_of_positions ?idx))"
    by blast+
  from 3 w' m have "Work_abstract strict_lib w' = Inr (PStr (abstract_of_positions ?idx))"
    by blast
  with 1 2 w' show ?thesis by blast
qed

subsection \<open>Relation wrapping\<close>

text \<open>
  C7. For the work with id \<^verbatim>\<open>"W1"\<close> and \<^verbatim>\<open>related_works: ["W2", "W3"]\<close> the
  before-validator wraps each bare id into \<^verbatim>\<open>{"id": other, "work_id": "W1"}\<close>, the
  record normalizes, and its rows for the related-works table are
  \<^verbatim>\<open>("W1", "W2")\<close> and \<^verbatim>\<open>("W1", "W3")\<close>, in this order and no others.
\<close>

theorem relation_wrapping_concrete:
  "Work_work_id_ref_related
     (PDict [(''id'', PStr ''W1''), (''related_works'', PList [PStr ''W2'', PStr ''W3''])])
     = Inr (PDict [(''id'', PStr ''W1''),
              (''related_works'',
               PList [PDict [(''id'', PStr ''W2''), (''work_id'', PStr ''W1'')],
                      PDict [(''id'', PStr ''W3''), (''work_id'', PStr ''W1'')]])])
   \<and> (case Work x (PDict [(''id'', PStr ''W1''),
                          (''related_works'', PList [PStr ''W2'', PStr ''W3''])]) of
        Inl e \<Rightarrow> False
      | Inr w \<Rightarrow>
          snd (Work_rows x w) =
            [(''related_works'',
              PList [PList [PStr ''W1'', PStr ''W2''], PList [PStr ''W1'', PStr ''W3'']])])"
  by code_simp

subsection \<open>Foreign keys of subentities\<close>

text \<open>
  C3, at the record \<^verbatim>\<open>{"id": "W1", "counts_by_year": [{"year": 2020, "cited_by_count": 3}]}\<close>:
  \<^verbatim>\<open>_replicate_id_1\<close> writes the id of the work into the entry under the key
  \<^verbatim>\<open>author_id\<close>, and the entry of the normalized Work has the fields \<^verbatim>\<open>year\<close>
  and \<^verbatim>\<open>cited_by_count\<close> only: it carries the id of the work under no name.
\<close>

theorem work_counts_by_year_foreign_key:
  "Work_replicate_id_1
     (PDict [(''id'', PStr ''W1''),
             (''counts_by_year'',
              PList [PDict [(''year'', PInt 2020), (''cited_by_count'', PInt 3)]])])
     = Inr (PDict [(''id'', PStr ''W1''),
              (''counts_by_year'',
               PList [PDict [(''year'', PInt 2020), (''cited_by_count'', PInt 3),
                             (''author_id'', PStr ''W1'')]])])
   \<and> (case Work x (PDict [(''id'', PStr ''W1''),
             (''counts_by_year'',
              PList [PDict [(''year'', PInt 2020), (''cited_by_count'', PInt 3)]])]) of
        Inl e \<Rightarrow> False
      | Inr w \<Rightarrow>
          getattr w ''counts_by_year'' =
            PList [PObj ''WorkCountByYear''
                     [(''year'', PInt 2020), (''cited_by_count'', PInt 3)]])"
  by code_simp

subsection \<open>Topic keywords\<close>

text \<open>
  C9. A raw Topic mapping that has no key \<^verbatim>\<open>keywords\<close> does not normalize:
  \<^verbatim>\<open>_str_to_list\<close>, the before-validator that runs first, reads the key and the
  constructor ends with KeyError. With \<^verbatim>\<open>"keywords": null\<close> the mapping
  \<^verbatim>\<open>{"id": "T1"}\<close> normalizes, to a Topic whose keywords are None.
\<close>

theorem topic_keywords_key_required:
  "(map_of raw ''keywords'' = None \<longrightarrow> Topic x (PDict raw) = Inl KeyError)
   \<and> (case Topic x (PDict [(''id'', PStr ''T1''), (''keywords'', PNone)]) of
        Inl e \<Rightarrow> False
      | Inr w \<Rightarrow> getattr w ''keywords'' = PNone)"
proof (intro conjI impI)
  assume "map_of raw ''keywords'' = None"
  then show "Topic x (PDict raw) = Inl KeyError"
    by (simp add: Topic_def Topic_str_to_list_def)
next
  show "case Topic x (PDict [(''id'', PStr ''T1''), (''keywords'', PNone)]) of
          Inl e \<Rightarrow> False
        | Inr w \<Rightarrow> getattr w ''keywords'' = PNone"
    by code_simp
qed

theorem topic_keywords_key_required_witness:
  "Topic strict_lib (PDict [(''id'', PStr ''T1'')]) = Inl KeyError"
  using topic_keywords_key_required[of "[(''id'', PStr ''T1'')]" strict_lib]
  by simp

subsection \<open>Idempotence of the before-validators\<close>





subsection \<open>The best open-access location\<close>

text \<open>
  C5. A work record whose \<^verbatim>\<open>best_oa_location\<close> has \<^verbatim>\<open>is_oa = false\<close> does not
  normalize, and when the same record with \<^verbatim>\<open>is_oa = true\<close> normalizes, the failure
  is a validation error. A Work that normalizes has no best open-access location or
  one that is marked open-access. For the record
  \<^verbatim>\<open>{"id": "W1", "best_oa_location": {"is_oa": false}}\<close> normalization ends with a
  validation error; with \<^verbatim>\<open>true\<close> it succeeds.
\<close>

theorem best_oa_location_must_be_oa:
  "(map_of raw ''best_oa_location'' = Some (PDict b) \<longrightarrow>
    map_of b ''is_oa'' = Some (PBool False) \<longrightarrow>
      (\<exists>e. Work x (PDict raw) = Inl e)
      \<and> ((\<exists>w. Work x (PDict (AList.update ''best_oa_location''
                 (PDict (AList.update ''is_oa'' (PBool True) b)) raw)) = Inr w)
           \<longrightarrow> Work x (PDict raw) = Inl ValidationError))
   \<and> (Work x (PDict raw) = Inr w \<longrightarrow>
        getattr w ''best_oa_location'' = PNone
        \<or> py_truthy (getattr (getattr w ''best_oa_location'') ''is_oa''))
   \<and> Work x (PDict [(''id'', PStr ''W1''), (''best_oa_location'', PDict [(''is_oa'', PBool False)])])
       = Inl ValidationError
   \<and> (case Work x (PDict [(''id'', PStr ''W1''),
                           (''best_oa_location'', PDict [(''is_oa'', PBool True)])]) of
        Inl e \<Rightarrow> False
      | Inr w \<Rightarrow> getattr (getattr w ''best_oa_location'') ''is_oa'' = PBool True)"
proof (intro conjI impI)
  assume "map_of raw ''best_oa_location'' = Some (PDict b)"
    and "map_of b ''is_oa'' = Some (PBool False)"
  then show "\<exists>e. Work x (PDict raw) = Inl e"
    by (rule Work_best_oa_location_not_oa)
next
  assume "map_of raw ''best_oa_location'' = Some (PDict b)"
    and "map_of b ''is_oa'' = Some (PBool False)"
    and "\<exists>w. Work x (PDict (AList.update ''best_oa_location''
                 (PDict (AList.update ''is_oa'' (PBool True) b)) raw)) = Inr w"
  then show "Work x (PDict raw) = Inl ValidationError"
    by (auto intro: Work_not_oa_ValidationError)
next
  assume "Work x (PDict raw) = Inr w"
  then show "getattr w ''best_oa_location'' = PNone
        \<or> py_truthy (getattr (getattr w ''best_oa_location'') ''is_oa'')"
    by (rule Work_best_oa_location_is_oa)
next
  show "Work x (PDict [(''id'', PStr ''W1''), (''best_oa_location'', PDict [(''is_oa'', PBool False)])])
       = Inl ValidationError"
    by code_simp
  show "case Work x (PDict [(''id'', PStr ''W1''),
                           (''best_oa_location'', PDict [(''is_oa'', PBool True)])]) of
        Inl e \<Rightarrow> False
      | Inr w \<Rightarrow> getattr (getattr w ''best_oa_location'') ''is_oa'' = PBool True"
    by code_simp
qed

theorem best_oa_location_must_be_oa_witness:
  "Work strict_lib
     (PDict [(''id'', PStr ''W1''), (''best_oa_location'', PDict [(''is_oa'', PBool False)])])
     = Inl ValidationError
   \<and> (case Work strict_lib
             (PDict [(''id'', PStr ''W1''), (''best_oa_location'', PDict [(''is_oa'', PBool True)])]) of
        Inl e \<Rightarrow> False
      | Inr w \<Rightarrow> getattr w ''best_oa_location'' = PNone
                 \<or> py_truthy (getattr (getattr w ''best_oa_location'') ''is_oa''))"
proof -
  let ?rf = "[(''id'', PStr ''W1''), (''best_oa_location'', PDict [(''is_oa'', PBool False)])]"
  let ?rt = "[(''id'', PStr ''W1''), (''best_oa_location'', PDict [(''is_oa'', PBool True)])]"
  have "case Work strict_lib (PDict ?rt) of Inl e \<Rightarrow> False | Inr w \<Rightarrow> True"
    by code_simp
  then obtain w where w: "Work strict_lib (PDict ?rt) = Inr w"
    by (auto dest: Inr_of_case)
  have upd: "AList.update ''best_oa_location''
               (PDict (AList.update ''is_oa'' (PBool True) [(''is_oa'', PBool False)])) ?rf = ?rt"
    by simp
  have 1: "map_of ?rf ''best_oa_location'' = Some (PDict [(''is_oa'', PBool False)])"
    by simp
  have 2: "map_of [(''is_oa'', PBool False)] ''is_oa'' = Some (PBool False)"
    by simp
  from best_oa_location_must_be_oa[of ?rf "[(''is_oa'', PBool False)]" strict_lib] 1 2 w upd
  have "Work strict_lib (PDict ?rf) = Inl ValidationError"
    by simp
  moreover from best_oa_location_must_be_oa[of ?rt _ strict_lib w] w
  have "getattr w ''best_oa_location'' = PNone
        \<or> py_truthy (getattr (getattr w ''best_oa_location'') ''is_oa'')"
    by simp
  ultimately show ?thesis using w by simp
qed

subsection \<open>Repositories of an institution\<close>

text \<open>
  C10. An Institution record whose \<^verbatim>\<open>repositories\<close> list contains a source with no
  \<^verbatim>\<open>host_organization\<close>, or with None for it, does not normalize: the after-validator
  compares the host organization with the id of the institution by \<^verbatim>\<open>!=\<close>, and None
  differs from every id. When the before-validator and the validation of the fields
  go through, the failure is the validation error of that check; so it is for
  \<^verbatim>\<open>{"id": "I1", "repositories": [{"id": "S1"}]}\<close>.
\<close>

theorem repositories_null_host_fails:
  "(map_of raw ''repositories'' = Some (PList rs) \<longrightarrow> PDict rd \<in> set rs \<longrightarrow>
    (map_of rd ''host_organization'' = None \<or> map_of rd ''host_organization'' = Some PNone) \<longrightarrow>
      (\<exists>e. Institution x (PDict raw) = Inl e)
      \<and> (Institution_replicate_id (PDict raw) = Inr v1 \<longrightarrow>
          pyd_model ''Institution'' (Institution_fields x) v1 = Inr w0 \<longrightarrow>
          Institution x (PDict raw) = Inl ValidationError))
   \<and> Institution x
        (PDict [(''id'', PStr ''I1''), (''repositories'', PList [PDict [(''id'', PStr ''S1'')]])])
       = Inl ValidationError"
proof -
  have gen: "Institution x (PDict raw) = Inl ValidationError"
    if "map_of raw ''repositories'' = Some (PList rs)" "PDict rd \<in> set rs"
      "map_of rd ''host_organization'' = None \<or> map_of rd ''host_organization'' = Some PNone"
      "Institution_replicate_id (PDict raw) = Inr v1"
      "pyd_model ''Institution'' (Institution_fields x) v1 = Inr w0"
    for raw rs rd v1 w0
    using Institution_null_host[OF that(4,5,1,2,3)] that(4,5)
    by (simp add: Institution_def)
  have fails: "\<exists>e. Institution x (PDict raw) = Inl e"
    if "map_of raw ''repositories'' = Some (PList rs)" "PDict rd \<in> set rs"
      "map_of rd ''host_organization'' = None \<or> map_of rd ''host_organization'' = Some PNone"
  proof (cases "Institution x (PDict raw)")
    case (Inl e)
    then show ?thesis by blast
  next
    case (Inr w)
    then obtain v1 w0 where "Institution_replicate_id (PDict raw) = Inr v1"
      "pyd_model ''Institution'' (Institution_fields x) v1 = Inr w0"
      by (auto simp: Institution_def rbind_eq_Inr)
    from gen[OF that this] Inr show ?thesis by simp
  qed
  let ?raw = "[(''id'', PStr ''I1''), (''repositories'', PList [PDict [(''id'', PStr ''S1'')]])]"
  have "case Institution_replicate_id (PDict ?raw) of
          Inl e \<Rightarrow> False
        | Inr v \<Rightarrow> (case pyd_model ''Institution'' (Institution_fields x) v of
                      Inl e \<Rightarrow> False | Inr w \<Rightarrow> True)"
    by code_simp
  then obtain v1' w0' where "Institution_replicate_id (PDict ?raw) = Inr v1'"
    "pyd_model ''Institution'' (Institution_fields x) v1' = Inr w0'"
    by (auto split: sum.splits)
  from gen[OF _ _ _ this, of "[PDict [(''id'', PStr ''S1'')]]" "[(''id'', PStr ''S1'')]"]
  have "Institution x (PDict ?raw) = Inl ValidationError"
    by simp
  with gen fails show ?thesis by blast
qed

theorem repositories_null_host_fails_witness:
  "Institution strict_lib
         (PDict [(''id'', PStr ''I1''),
                 (''repositories'',
                  PList [PDict [(''id'', PStr ''S1''), (''host_organization'', PNone)]])])
        = Inl ValidationError"
proof -
  let ?rd = "[(''id'', PStr ''S1''), (''host_organization'', PNone)]"
  let ?raw = "[(''id'', PStr ''I1''), (''repositories'', PList [PDict ?rd])]"
  have 1: "map_of ?raw ''repositories'' = Some (PList [PDict ?rd])" by simp
  have 2: "PDict ?rd \<in> set [PDict ?rd]" by simp
  have 3: "map_of ?rd ''host_organization'' = None
      \<or> map_of ?rd ''host_organization'' = Some PNone" by simp
  have "case Institution_replicate_id (PDict ?raw) of
          Inl e \<Rightarrow> False
        | Inr v \<Rightarrow> (case pyd_model ''Institution'' (Institution_fields strict_lib) v of
                      Inl e \<Rightarrow> False | Inr w \<Rightarrow> True)"
    by code_simp
  then obtain v1 w0 where 4: "Institution_replicate_id (PDict ?raw) = Inr v1"
    and 5: "pyd_model ''Institution'' (Institution_fields strict_lib) v1 = Inr w0"
    by (auto split: sum.splits)
  from repositories_null_host_fails[of ?raw "[PDict ?rd]" ?rd strict_lib v1 w0] 1 2 3 4 5
  show ?thesis by blast
qed

end
